theory Spec2Isabelle
  imports Complex_Main "HOL-Library.Word" "HOL-Library.Log_Nat" "HOL-Library.Code_Target_Numeral"
begin

unbundle bit_operations_syntax

section \<open>The M3U8 playlist (gstm3u8playlist.c)\<close>

text \<open>
  Machine types. A \<open>guint\<close> is a 32-bit unsigned integer, a \<open>guint64\<close> and a
  \<open>GstClockTime\<close> are 64-bit unsigned integers counting nanoseconds. A \<open>gfloat\<close> or a
  \<open>double\<close> is modelled by the real number it holds. Where the code computes in
  single or double precision with a result that need not be exact, the rounding of the
  result is a parameter of the model (\<open>to_gfloat\<close>, \<open>to_double\<close>); the conversion
  of a 64-bit integer to \<open>gfloat\<close> is written out (\<open>gfloat_of_guint64\<close> below). The
  one computation taken as exact is the one of the target duration, which is exact in
  \<open>double\<close> for durations below \<open>2 ^ 52\<close> nanoseconds.
  A \<open>GDateTime\<close> is an instant, kept as the number of microseconds since the epoch.
  A C string that may be \<open>NULL\<close> is a \<open>string option\<close>.
\<close>

type_synonym guint = "32 word"
type_synonym guint64 = "64 word"
type_synonym byte = "8 word"
type_synonym GDateTime = int

definition GST_SECOND :: nat where
  "GST_SECOND = 1000000000"

definition GST_MSECOND :: nat where
  "GST_MSECOND = GST_SECOND div 1000"

datatype playlist_type = GST_M3U8_PLAYLIST_TYPE_EVENT | GST_M3U8_PLAYLIST_TYPE_VOD

datatype GstHlsProgramDateTimeMode =
  GST_HLS_PROGRAM_DATE_TIME_NEVER
| GST_HLS_PROGRAM_DATE_TIME_FIRST_CHUNK
| GST_HLS_PROGRAM_DATE_TIME_ALL_CHUNKS

record GstM3U8Entry =
  duration :: real
  title :: "string option"
  url :: string
  discontinuous :: bool
  program_date_time :: "GDateTime option"

text \<open>
  The playlist structure is declared in gstm3u8playlist.h; its fields are the ones the
  functions below read and write. \<open>entries\<close> is the GQueue, head first.
\<close>

record GstM3U8Playlist =
  version :: guint
  window_size :: guint
  type :: playlist_type
  end_list :: bool
  sequence_number :: guint
  discontinuity_sequence_number :: guint
  entries :: "GstM3U8Entry list"
  encryption_method :: int
  key_location :: "string option"
  program_date_time_mode :: GstHlsProgramDateTimeMode

text \<open>\<open>gst_m3u8_entry_new\<close>: \<open>NULL\<close> when the url is \<open>NULL\<close>, else a fresh entry.\<close>

definition gst_m3u8_entry_new ::
  "string option \<Rightarrow> string option \<Rightarrow> real \<Rightarrow> bool \<Rightarrow> GDateTime option \<Rightarrow> GstM3U8Entry option" where
  "gst_m3u8_entry_new u t d disc pdt =
     (case u of
        None \<Rightarrow> None
      | Some s \<Rightarrow> Some \<lparr>duration = d, title = t, url = s, discontinuous = disc,
                         program_date_time = pdt\<rparr>)"

text \<open>\<open>gst_m3u8_playlist_new\<close>: \<open>g_new0\<close> zeroes every field that is not assigned.\<close>

definition gst_m3u8_playlist_new :: "guint \<Rightarrow> guint \<Rightarrow> GstM3U8Playlist" where
  "gst_m3u8_playlist_new v w =
     \<lparr>version = v, window_size = w, type = GST_M3U8_PLAYLIST_TYPE_EVENT, end_list = False,
      sequence_number = 0, discontinuity_sequence_number = 0, entries = [],
      encryption_method = 0, key_location = Some ''playlist.key'',
      program_date_time_mode = GST_HLS_PROGRAM_DATE_TIME_ALL_CHUNKS\<rparr>"

text \<open>
  The eviction loop of \<open>gst_m3u8_playlist_add_entry\<close>:
  \<^verbatim>\<open>while (playlist->entries->length >= playlist->window_size) pop_head\<close>.
  It is only entered with a positive window size, where a queue at least that long is
  not empty; on the empty queue the test fails and the loop ends.
\<close>

fun delete_old_entries :: "nat \<Rightarrow> GstM3U8Entry list \<Rightarrow> GstM3U8Entry list" where
  "delete_old_entries w [] = []"
| "delete_old_entries w (e # es) =
     (if length (e # es) \<ge> w then delete_old_entries w es else e # es)"

text \<open>
  \<open>gst_m3u8_playlist_add_entry\<close> returns the \<open>gboolean\<close> and the playlist after the
  call (\<open>None\<close> is the \<open>NULL\<close> playlist). The entry constructor cannot fail once the url
  has passed the check before it.
\<close>

definition gst_m3u8_playlist_add_entry ::
  "GstM3U8Playlist option \<Rightarrow> string option \<Rightarrow> string option \<Rightarrow> real \<Rightarrow> guint \<Rightarrow> bool \<Rightarrow>
     GDateTime option \<Rightarrow> bool \<times> GstM3U8Playlist option" where
  "gst_m3u8_playlist_add_entry playlist u t d index disc pdt =
     (case playlist of
        None \<Rightarrow> (False, None)
      | Some p \<Rightarrow>
          (case u of
             None \<Rightarrow> (False, Some p)
           | Some s \<Rightarrow>
               if type p = GST_M3U8_PLAYLIST_TYPE_VOD then (False, Some p)
               else
                 (case gst_m3u8_entry_new u t d disc pdt of
                    None \<Rightarrow> (False, Some p)
                  | Some entry \<Rightarrow>
                      let old = (if unat (window_size p) > 0
                                 then delete_old_entries (unat (window_size p)) (entries p)
                                 else entries p)
                      in (True, Some (p\<lparr>sequence_number := index + 1,
                                          entries := old @ [entry]\<rparr>)))))"

text \<open>
  \<open>gst_m3u8_playlist_target_duration\<close>. The loop keeps the running maximum in a
  \<open>guint64\<close>: the comparison is made in floating point, the assignment truncates the
  \<open>gfloat\<close> towards zero (a value that passes the comparison is positive). The result
  is \<open>ceil ((target_duration + 500.0 * GST_MSECOND) / GST_SECOND)\<close>, computed in
  \<open>double\<close> and cast to \<open>guint\<close>. Both conversions to an integer type keep the
  value when it is in the range of the type; out of range C leaves them undefined, and
  the model keeps the low bits, as the conversion on x86-64 does for the cast to
  \<open>guint\<close>. The sum and the quotient are exact in the model; \<open>double\<close> arithmetic
  gives the same ceiling while the maximum is below \<open>2 ^ 52\<close>: the sum is then an
  integer below \<open>2 ^ 53\<close>, and the quotient, below \<open>2 ^ 24\<close>, is rounded by less than
  the billionth that separates it from an integer it does not equal.
\<close>

fun target_duration_loop :: "GstM3U8Entry list \<Rightarrow> guint64 \<Rightarrow> guint64" where
  "target_duration_loop [] target = target"
| "target_duration_loop (entry # l) target =
     target_duration_loop l
       (if duration entry > real (unat target) then word_of_int \<lfloor>duration entry\<rfloor>
        else target)"

definition gst_m3u8_playlist_target_duration :: "GstM3U8Playlist \<Rightarrow> guint" where
  "gst_m3u8_playlist_target_duration playlist =
     word_of_int
       \<lceil>(real (unat (target_duration_loop (entries playlist) 0)) + 500 * real GST_MSECOND)
          / real GST_SECOND\<rceil>"

definition encryption_method_to_string :: "int \<Rightarrow> string option" where
  "encryption_method_to_string method =
     (if method = 0 then Some ''NONE'' else if method = 1 then Some ''AES-128'' else None)"

text \<open>
  The conversions of \<open>printf\<close>: \<open>%u\<close> and \<open>%d\<close> print decimal digits, \<open>%03d\<close> pads
  with zeros to three digits, \<open>%s\<close> of a \<open>NULL\<close> pointer prints \<open>(null)\<close>. The
  conversion \<open>%.6f\<close>, \<open>g_date_time_format\<close> with the pattern \<open>%FT%T\<close> and the
  rounding to single precision are parameters of the rendering. \<open>printf_6f_decimal\<close>
  is the text \<open>%.6f\<close> gives for a number that is not negative and whose seventh
  decimal is not 5: the number rounded to six decimals.
\<close>

definition digit_char :: "nat \<Rightarrow> char" where
  "digit_char n = ''0123456789'' ! (n mod 10)"

function printf_u :: "nat \<Rightarrow> string" where
  "printf_u n = (if n < 10 then [digit_char n] else printf_u (n div 10) @ [digit_char n])"
  by pat_completeness auto
termination
  by (relation "measure (\<lambda>n. n)") auto

declare printf_u.simps [simp del]

definition printf_d :: "int \<Rightarrow> string" where
  "printf_d i = (if i < 0 then CHR ''-'' # printf_u (nat (- i)) else printf_u (nat i))"

definition printf_03d :: "int \<Rightarrow> string" where
  "printf_03d i =
     (if i < 0 then CHR ''-'' # replicate (2 - length (printf_u (nat (- i)))) CHR ''0''
                     @ printf_u (nat (- i))
      else replicate (3 - length (printf_u (nat i))) CHR ''0'' @ printf_u (nat i))"

definition printf_s :: "string option \<Rightarrow> string" where
  "printf_s s = (case s of None \<Rightarrow> ''(null)'' | Some t \<Rightarrow> t)"

definition printf_6f_decimal :: "real \<Rightarrow> string" where
  "printf_6f_decimal x =
     (let n = nat \<lfloor>x * 1000000 + 1 / 2\<rfloor>
      in printf_u (n div 1000000) @ ''.''
           @ replicate (6 - length (printf_u (n mod 1000000))) CHR ''0''
           @ printf_u (n mod 1000000))"

text \<open>
  \<open>format_program_date_time\<close> appends to the string built so far. \<open>is_head\<close> says
  whether the entry is the one at the head of the queue. On a \<open>NULL\<close> date
  \<open>g_date_time_format\<close> returns \<open>NULL\<close> and nothing is appended.
\<close>

definition format_program_date_time ::
  "(GDateTime \<Rightarrow> string option) \<Rightarrow> GstM3U8Playlist \<Rightarrow> bool \<Rightarrow> GstM3U8Entry \<Rightarrow> string \<Rightarrow> string" where
  "format_program_date_time date_format playlist is_head entry playlist_str =
     (if program_date_time_mode playlist = GST_HLS_PROGRAM_DATE_TIME_NEVER then playlist_str
      else if program_date_time_mode playlist = GST_HLS_PROGRAM_DATE_TIME_FIRST_CHUNK
              \<and> \<not> is_head \<and> \<not> discontinuous entry then playlist_str
      else
        (case program_date_time entry of
           None \<Rightarrow> playlist_str
         | Some dt \<Rightarrow>
             (case date_format dt of
                None \<Rightarrow> playlist_str
              | Some time_str \<Rightarrow>
                  playlist_str @ ''#EXT-X-PROGRAM-DATE-TIME:'' @ time_str @ ''.''
                    @ printf_03d ((dt mod 1000000) div 1000) @ ''Z'' @ [CHR 0x0A])))"

text \<open>The value a C cast to \<open>gint\<close> takes from a floating-point number: truncation.\<close>

definition truncate_real :: "real \<Rightarrow> int" where
  "truncate_real x = (if x < 0 then \<lceil>x\<rceil> else \<lfloor>x\<rfloor>)"

text \<open>
  The body of the loop over the entries in \<open>gst_m3u8_playlist_render\<close>. Both forms of
  the \<open>#EXTINF\<close> line compute in single precision: the sum of the duration and 500 ms
  and the quotients by \<open>GST_SECOND\<close> are rounded by \<open>to_gfloat\<close> (the two constants
  are single-precision numbers as they are).
\<close>

fun render_entries ::
  "(GDateTime \<Rightarrow> string option) \<Rightarrow> (real \<Rightarrow> string) \<Rightarrow> (real \<Rightarrow> real) \<Rightarrow>
     GstM3U8Playlist \<Rightarrow> bool \<Rightarrow> GstM3U8Entry list \<Rightarrow> string \<Rightarrow> string" where
  "render_entries date_format printf_6f to_gfloat playlist is_head [] playlist_str =
     playlist_str"
| "render_entries date_format printf_6f to_gfloat playlist is_head (entry # l) playlist_str =
     (let s1 = (if discontinuous entry
                then playlist_str @ ''#EXT-X-DISCONTINUITY'' @ [CHR 0x0A] else playlist_str);
          s2 = format_program_date_time date_format playlist is_head entry s1;
          s3 = (if unat (version playlist) < 3
                then s2 @ ''#EXTINF:''
                       @ printf_d (truncate_real
                                     (to_gfloat (to_gfloat (duration entry
                                                              + 500 * real GST_MSECOND)
                                                 / real GST_SECOND)))
                       @ '','' @ (case title entry of None \<Rightarrow> [] | Some t \<Rightarrow> t)
                       @ [CHR 0x0A]
                else s2 @ ''#EXTINF:''
                       @ printf_6f (to_gfloat (duration entry / real GST_SECOND))
                       @ '','' @ (case title entry of None \<Rightarrow> [] | Some t \<Rightarrow> t)
                       @ [CHR 0x0A]);
          s4 = s3 @ url entry @ [CHR 0x0A]
      in render_entries date_format printf_6f to_gfloat playlist False l s4)"

text \<open>
  \<open>gst_m3u8_playlist_render\<close>. The version is printed with \<open>%d\<close>, and so is the
  difference \<open>sequence_number - entries->length\<close>, an unsigned 32-bit value read as a
  signed one; the target duration is printed with \<open>%u\<close>.
\<close>

definition gst_m3u8_playlist_render ::
  "(GDateTime \<Rightarrow> string option) \<Rightarrow> (real \<Rightarrow> string) \<Rightarrow> (real \<Rightarrow> real) \<Rightarrow>
     GstM3U8Playlist option \<Rightarrow> string option" where
  "gst_m3u8_playlist_render date_format printf_6f to_gfloat pl =
     (case pl of
        None \<Rightarrow> None
      | Some playlist \<Rightarrow>
          (let s0 = ''#EXTM3U'' @ [CHR 0x0A];
               s1 = s0 @ ''#EXT-X-VERSION:'' @ printf_d (sint (version playlist)) @ [CHR 0x0A];
               s2 = s1 @ ''#EXT-X-MEDIA-SEQUENCE:''
                      @ printf_d (sint (sequence_number playlist
                                         - word_of_nat (length (entries playlist))))
                      @ [CHR 0x0A];
               s3 = s2 @ ''#EXT-X-TARGETDURATION:''
                      @ printf_u (unat (gst_m3u8_playlist_target_duration playlist))
                      @ [CHR 0x0A];
               s4 = (if encryption_method playlist \<noteq> 0 \<and> key_location playlist \<noteq> None
                     then s3 @ ''#EXT-X-KEY:METHOD=''
                            @ printf_s (encryption_method_to_string (encryption_method playlist))
                            @ '',URI='' @ [CHR 0x22] @ printf_s (key_location playlist)
                            @ [CHR 0x22, CHR 0x0A]
                     else s3);
               s5 = s4 @ [CHR 0x0A];
               s6 = render_entries date_format printf_6f to_gfloat playlist True
                      (entries playlist) s5
           in Some (if end_list playlist then s6 @ ''#EXT-X-ENDLIST'' else s6)))"

text \<open>
  A sequence of calls of \<open>gst_m3u8_playlist_add_entry\<close> on one playlist: the arguments
  of each call, and the run that makes the calls in order and collects what they return.
\<close>

record add_entry_call =
  call_url :: "string option"
  call_title :: "string option"
  call_duration :: real
  call_index :: guint
  call_discontinuous :: bool
  call_program_date_time :: "GDateTime option"

definition add_entry_call_apply ::
  "GstM3U8Playlist option \<Rightarrow> add_entry_call \<Rightarrow> bool \<times> GstM3U8Playlist option" where
  "add_entry_call_apply playlist c =
     gst_m3u8_playlist_add_entry playlist (call_url c) (call_title c) (call_duration c)
       (call_index c) (call_discontinuous c) (call_program_date_time c)"

definition add_entry_call_entry :: "add_entry_call \<Rightarrow> GstM3U8Entry option" where
  "add_entry_call_entry c =
     gst_m3u8_entry_new (call_url c) (call_title c) (call_duration c)
       (call_discontinuous c) (call_program_date_time c)"

fun add_entry_calls ::
  "GstM3U8Playlist option \<Rightarrow> add_entry_call list \<Rightarrow> bool list \<times> GstM3U8Playlist option" where
  "add_entry_calls playlist [] = ([], playlist)"
| "add_entry_calls playlist (c # cs) =
     (case add_entry_call_apply playlist c of
        (r, playlist') \<Rightarrow>
          (case add_entry_calls playlist' cs of
             (rs, playlist'') \<Rightarrow> (r # rs, playlist'')))"

section \<open>The sink (gsthlssink.c)\<close>

subsection \<open>Initialisation vector\<close>

definition AES_BLOCK_SIZE :: nat where
  "AES_BLOCK_SIZE = 16"

text \<open>
  \<open>GUINT_TO_BE\<close> is the identity on a big-endian host and the byte swap
  \<open>GUINT32_SWAP_LE_BE\<close> on a little-endian one. \<open>guint_bytes\<close> is the object
  representation of a \<open>guint\<close>: its four bytes in the order of their addresses, which is
  what the cast to \<open>unsigned char *\<close> reads.
\<close>

datatype byte_order = G_LITTLE_ENDIAN | G_BIG_ENDIAN

definition GUINT32_SWAP_LE_BE :: "guint \<Rightarrow> guint" where
  "GUINT32_SWAP_LE_BE val =
     push_bit 24 (val AND 0x000000ff) OR push_bit 8 (val AND 0x0000ff00)
       OR drop_bit 8 (val AND 0x00ff0000) OR drop_bit 24 (val AND 0xff000000)"

definition GUINT_TO_BE :: "byte_order \<Rightarrow> guint \<Rightarrow> guint" where
  "GUINT_TO_BE host val =
     (case host of G_LITTLE_ENDIAN \<Rightarrow> GUINT32_SWAP_LE_BE val | G_BIG_ENDIAN \<Rightarrow> val)"

definition guint_bytes :: "byte_order \<Rightarrow> guint \<Rightarrow> byte list" where
  "guint_bytes host val =
     (case host of
        G_LITTLE_ENDIAN \<Rightarrow>
          [ucast val, ucast (drop_bit 8 val), ucast (drop_bit 16 val), ucast (drop_bit 24 val)]
      | G_BIG_ENDIAN \<Rightarrow>
          [ucast (drop_bit 24 val), ucast (drop_bit 16 val), ucast (drop_bit 8 val), ucast val])"

text \<open>
  \<open>gst_hls_sink_create_iv\<close>, on the index of the sink: the loop
  \<^verbatim>\<open>for (i = 0; i != sizeof (guint); ++i) iv[AES_BLOCK_SIZE - sizeof (guint) + i] = raw[i]\<close>
  over the buffer it is given. \<open>gst_hls_sink_init_encrypting\<close> hands it a block of
  zeros; \<open>init_encrypting_iv\<close> is the vector it then passes to the cipher.
\<close>

definition gst_hls_sink_create_iv :: "byte_order \<Rightarrow> guint \<Rightarrow> byte list \<Rightarrow> byte list" where
  "gst_hls_sink_create_iv host index iv =
     (let index_be = GUINT_TO_BE host index;
          raw = guint_bytes host index_be
      in fold (\<lambda>i buf. buf[AES_BLOCK_SIZE - 4 + i := raw ! i]) [0..<4] iv)"

definition init_encrypting_iv :: "byte_order \<Rightarrow> guint \<Rightarrow> byte list" where
  "init_encrypting_iv host index =
     gst_hls_sink_create_iv host index (replicate AES_BLOCK_SIZE 0)"

subsection \<open>The sink and the scheduling of key units\<close>

text \<open>
  The structure of the sink is declared in gsthlssink.h; these are the fields the
  functions below use. A \<open>GstSegment\<close> is represented by its conversion of a timestamp
  to running time (\<open>gst_segment_to_running_time\<close> in \<open>GST_FORMAT_TIME\<close>); the segment
  left by \<open>gst_segment_init\<close> with \<open>GST_FORMAT_UNDEFINED\<close> converts every timestamp to
  \<open>GST_CLOCK_TIME_NONE\<close>. The two fields whose names the playlist already uses carry
  the prefix \<open>sink_\<close>.
\<close>

type_synonym GstClockTime = guint64
type_synonym GstSegment = "GstClockTime \<Rightarrow> GstClockTime"

definition GST_CLOCK_TIME_NONE :: GstClockTime where
  "GST_CLOCK_TIME_NONE = - 1"

definition GST_M3U8_PLAYLIST_RENDER_INIT :: guint where
  "GST_M3U8_PLAYLIST_RENDER_INIT = 1"

definition GST_M3U8_PLAYLIST_RENDER_STARTED :: guint where
  "GST_M3U8_PLAYLIST_RENDER_STARTED = 2"

definition GST_M3U8_PLAYLIST_RENDER_ENDED :: guint where
  "GST_M3U8_PLAYLIST_RENDER_ENDED = 4"

definition GST_HLS_SINK_ENC_NONE :: int where
  "GST_HLS_SINK_ENC_NONE = 0"

definition GST_HLS_SINK_ENC_AES_128 :: int where
  "GST_HLS_SINK_ENC_AES_128 = 1"

record GstHlsSink =
  playlist_location :: string
  playlist_root :: "string option"
  target_duration :: guint
  sink_encryption_method :: int
  is_reset_index_on_stop :: bool
  index :: guint
  playlist :: "GstM3U8Playlist option"
  last_running_time :: GstClockTime
  waiting_fku :: bool
  segment :: GstSegment
  start_time :: "GDateTime option"
  program_date_time_shift :: int
  state :: guint
  key :: "byte list"

text \<open>An upstream force-key-unit event: running time, the all-headers flag, the count.\<close>

record force_key_unit =
  fku_running_time :: GstClockTime
  fku_all_headers :: bool
  fku_count :: guint

text \<open>
  \<open>schedule_next_key_unit\<close>. \<open>push_ok\<close> is what \<open>gst_pad_push_event\<close> returns if it
  is called. The result is the \<open>gboolean\<close>, the sink after the call and the events
  pushed upstream, each with what the push returned.
\<close>

type_synonym pushed_event = "force_key_unit \<times> bool"

definition schedule_next_key_unit ::
  "bool \<Rightarrow> GstHlsSink \<Rightarrow> bool \<times> GstHlsSink \<times> pushed_event list" where
  "schedule_next_key_unit push_ok sink =
     (if target_duration sink = 0 then (True, sink\<lparr>waiting_fku := True\<rparr>, [])
      else
        let running_time = last_running_time sink
                             + ucast (target_duration sink) * word_of_nat GST_SECOND;
            event = \<lparr>fku_running_time = running_time, fku_all_headers = True,
                     fku_count = index sink + 1\<rparr>;
            res = push_ok
        in (res, sink\<lparr>waiting_fku := res\<rparr>, [(event, res)]))"

text \<open>A buffer is represented by its timestamp.\<close>

definition gst_hls_sink_check_schedule_next_key_unit ::
  "bool \<Rightarrow> GstHlsSink \<Rightarrow> GstClockTime \<Rightarrow> GstHlsSink \<times> pushed_event list" where
  "gst_hls_sink_check_schedule_next_key_unit push_ok sink buf =
     (if buf = GST_CLOCK_TIME_NONE then (sink, [])
      else
        (case schedule_next_key_unit push_ok
                (sink\<lparr>last_running_time := segment sink buf\<rparr>) of
           (res, sink', events) \<Rightarrow> (sink', events)))"

definition gst_hls_sink_ghost_buffer_probe ::
  "bool \<Rightarrow> GstHlsSink \<Rightarrow> GstClockTime \<Rightarrow> GstHlsSink \<times> pushed_event list" where
  "gst_hls_sink_ghost_buffer_probe push_ok sink buffer =
     (if target_duration sink = 0 \<or> waiting_fku sink then (sink, [])
      else gst_hls_sink_check_schedule_next_key_unit push_ok sink buffer)"

text \<open>
  \<open>gst_hls_sink_chain_list\<close>. When the sink does not schedule or is waiting the list
  goes on as a whole, and the buffer probe is not run on a list. Otherwise each buffer is
  looked at, unless the sink is waiting by then, and chained by \<open>gst_pad_chain\<close>, which
  runs the buffer probe of the pad on it; the loop stops at the first buffer whose chain
  does not return \<open>GST_FLOW_OK\<close>. A buffer of the list comes with three answers of the
  environment: what a push would return in the loop, what it would return in the probe,
  and whether the chain returns \<open>GST_FLOW_OK\<close>.
\<close>

type_synonym chained_buffer = "GstClockTime \<times> bool \<times> bool \<times> bool"

fun chain_list_loop :: "GstHlsSink \<Rightarrow> chained_buffer list \<Rightarrow> GstHlsSink \<times> pushed_event list" where
  "chain_list_loop sink [] = (sink, [])"
| "chain_list_loop sink ((buffer, push_ok, probe_push_ok, flow_ok) # list) =
     (case (if \<not> waiting_fku sink
            then gst_hls_sink_check_schedule_next_key_unit push_ok sink buffer
            else (sink, [])) of
        (sink1, events1) \<Rightarrow>
          (case gst_hls_sink_ghost_buffer_probe probe_push_ok sink1 buffer of
             (sink2, events2) \<Rightarrow>
               if flow_ok
               then (case chain_list_loop sink2 list of
                       (sink3, events3) \<Rightarrow> (sink3, events1 @ events2 @ events3))
               else (sink2, events1 @ events2)))"

definition gst_hls_sink_chain_list ::
  "GstHlsSink \<Rightarrow> chained_buffer list \<Rightarrow> GstHlsSink \<times> pushed_event list" where
  "gst_hls_sink_chain_list sink list =
     (if target_duration sink = 0 \<or> waiting_fku sink then (sink, [])
      else chain_list_loop sink list)"

text \<open>
  The stream position reaches the sink with a buffer, through the buffer probe, or with
  a list of buffers, through the chain-list function. A run takes the observations in
  order and collects the events pushed.
\<close>

datatype observation =
  BUFFER GstClockTime bool
| BUFFER_LIST "chained_buffer list"

fun observe :: "GstHlsSink \<Rightarrow> observation \<Rightarrow> GstHlsSink \<times> pushed_event list" where
  "observe sink (BUFFER buffer push_ok) = gst_hls_sink_ghost_buffer_probe push_ok sink buffer"
| "observe sink (BUFFER_LIST list) = gst_hls_sink_chain_list sink list"

fun observations :: "GstHlsSink \<Rightarrow> observation list \<Rightarrow> GstHlsSink \<times> pushed_event list" where
  "observations sink [] = (sink, [])"
| "observations sink (ob # obs) =
     (case observe sink ob of
        (sink', events) \<Rightarrow>
          (case observations sink' obs of
             (sink'', events') \<Rightarrow> (sink'', events @ events')))"

subsection \<open>Files and paths\<close>

text \<open>
  The file system is a map from files to their bytes. A file is named by a path without
  empty components and without components \<open>.\<close>, and \<open>file_of_path\<close> gives the file
  a path name leads to: path names that differ only in repeated separators or in
  components \<open>.\<close> lead to the same file (\<open>encrypted\<close> and \<open>./encrypted\<close> do).
  Components \<open>..\<close> and links are not resolved. The three GLib path functions follow
  GLib's documentation, for the separator \<open>/\<close>: \<open>g_path_get_dirname\<close> cuts at the
  last separator and drops the separators that end the directory (\<open>.\<close> when there is
  none, the root when nothing else is left), \<open>g_path_get_basename\<close> is the last
  component, \<open>g_build_filename\<close> of two elements joins them with exactly one
  separator.
\<close>

type_synonym filesystem = "string \<Rightarrow> byte list option"

definition G_DIR_SEPARATOR :: char where
  "G_DIR_SEPARATOR = CHR ''/''"

fun split_path :: "string \<Rightarrow> string list" where
  "split_path [] = [[]]"
| "split_path (c # cs) =
     (if c = G_DIR_SEPARATOR then [] # split_path cs
      else (case split_path cs of
              [] \<Rightarrow> [[c]]
            | component # components \<Rightarrow> (c # component) # components))"

fun join_path :: "string list \<Rightarrow> string" where
  "join_path [] = []"
| "join_path [component] = component"
| "join_path (component # next_component # components) =
     component @ G_DIR_SEPARATOR # join_path (next_component # components)"

definition file_of_path :: "string \<Rightarrow> string" where
  "file_of_path path =
     (if take 1 path = [G_DIR_SEPARATOR] then [G_DIR_SEPARATOR] else [])
       @ join_path (filter (\<lambda>component. component \<noteq> [] \<and> component \<noteq> ''.'')
                      (split_path path))"

definition strip_trailing_separators :: "string \<Rightarrow> string" where
  "strip_trailing_separators s = rev (dropWhile (\<lambda>c. c = G_DIR_SEPARATOR) (rev s))"

definition g_path_get_dirname :: "string \<Rightarrow> string" where
  "g_path_get_dirname file_name =
     (if G_DIR_SEPARATOR \<notin> set file_name then ''.''
      else
        let dir = strip_trailing_separators
                    (rev (dropWhile (\<lambda>c. c \<noteq> G_DIR_SEPARATOR) (rev file_name)))
        in if dir = [] then [G_DIR_SEPARATOR] else dir)"

definition g_path_get_basename :: "string \<Rightarrow> string" where
  "g_path_get_basename file_name =
     (if file_name = [] then ''.''
      else
        let t = strip_trailing_separators file_name
        in if t = [] then [G_DIR_SEPARATOR]
           else rev (takeWhile (\<lambda>c. c \<noteq> G_DIR_SEPARATOR) (rev t)))"

definition g_build_filename :: "string \<Rightarrow> string \<Rightarrow> string" where
  "g_build_filename first second =
     (if first = [] then second
      else strip_trailing_separators first @ [G_DIR_SEPARATOR]
             @ dropWhile (\<lambda>c. c = G_DIR_SEPARATOR) second)"

subsection \<open>Encryption of a segment file\<close>

text \<open>
  \<open>add_padding\<close> (built when the cipher is not OpenSSL's): \<open>padding\<close> bytes of value
  \<open>padding\<close> after the data, with \<open>padding = AES_BLOCK_SIZE - size % AES_BLOCK_SIZE\<close>.
\<close>

definition add_padding :: "byte list \<Rightarrow> byte list" where
  "add_padding buf =
     (let padding = AES_BLOCK_SIZE - length buf mod AES_BLOCK_SIZE
      in buf @ replicate padding (word_of_nat padding))"

text \<open>
  The cipher library is chosen when the sink is built. \<open>HAVE_OPENSSL\<close> is OpenSSL
  before version 1.1, where the cipher context is a structure. With OpenSSL 1.1 or later
  the context is a pointer and \<open>gst_hls_sink_init_encrypting\<close> hands
  \<open>EVP_EncryptInit_ex\<close> the address of that pointer, not the pointer; what the library
  then does is undefined, and that build is not modelled. What the environment answers to
  one call of \<open>gst_hls_sink_encrypt_chunk\<close> is collected in \<open>encrypt_env\<close>: whether the
  cipher could be set up, whether each \<open>fopen\<close> and \<open>stat\<close> succeeded, how many bytes
  \<open>fread\<close> delivered (at most the number asked for) and whether it left the error
  indicator set, whether the cipher call succeeded, how many bytes \<open>fwrite\<close> accepted,
  and whether \<open>rename\<close> succeeded. Nettle's calls report no failure.
\<close>

datatype crypto_backend = HAVE_OPENSSL | HAVE_NETTLE | HAVE_GCRYPT

record encrypt_env =
  init_encrypting_ok :: bool
  fopen_chunk_ok :: bool
  fopen_encrypted_ok :: bool
  stat_ok :: bool
  fread_count :: nat
  fread_ferror :: bool
  cipher_ok :: bool
  fwrite_count :: nat
  rename_ok :: bool

text \<open>Where \<open>gst_hls_sink_encrypt_chunk\<close> left: the end of the function or a \<open>goto cleanup\<close>.\<close>

datatype encrypt_outcome =
  ENCRYPT_DONE
| INIT_ENCRYPTING_FAILED
| FOPEN_FAILED
| STAT_FAILED
| FREAD_FAILED
| CIPHER_FAILED
| FWRITE_FAILED
| RENAME_FAILED

text \<open>
  \<open>gst_hls_sink_encrypt_chunk\<close>. \<open>cbc\<close> is AES-128 in CBC mode on a key, an
  initialisation vector and a whole number of blocks. The source file is opened for
  reading, the file \<open>encrypted\<close> in the same directory for writing, which creates it
  empty or empties it; the size comes from \<open>stat\<close> on the name of the source, the data
  from \<open>fread\<close> on the open source. With OpenSSL the padding is added by
  \<open>EVP_EncryptFinal_ex\<close> (the same bytes \<open>add_padding\<close> adds), whose result is not
  tested. \<open>fwrite\<close> is asked for \<open>final_size\<close> bytes of the output buffer and
  fails when it accepts fewer. The function returns nothing; the model returns the file
  system it leaves and the place where it left.
\<close>

definition gst_hls_sink_encrypt_chunk ::
  "crypto_backend \<Rightarrow> byte_order \<Rightarrow> (byte list \<Rightarrow> byte list \<Rightarrow> byte list \<Rightarrow> byte list) \<Rightarrow>
     encrypt_env \<Rightarrow> GstHlsSink \<Rightarrow> filesystem \<Rightarrow> string \<Rightarrow> filesystem \<times> encrypt_outcome" where
  "gst_hls_sink_encrypt_chunk backend host cbc env sink fs filename =
     (if backend \<noteq> HAVE_NETTLE \<and> \<not> init_encrypting_ok env then (fs, INIT_ENCRYPTING_FAILED)
      else
        let chunk_file = file_of_path filename;
            chunk = (if fopen_chunk_ok env then fs chunk_file else None);
            root_dir = g_path_get_dirname filename;
            encrypted_chunk_path = g_build_filename root_dir ''encrypted'';
            encrypted_file = file_of_path encrypted_chunk_path;
            fs1 = (if fopen_encrypted_ok env then fs(encrypted_file \<mapsto> []) else fs)
        in if chunk = None \<or> \<not> fopen_encrypted_ok env then (fs1, FOPEN_FAILED)
           else
             (case (if stat_ok env then fs1 chunk_file else None) of
                None \<Rightarrow> (fs1, STAT_FAILED)
              | Some contents \<Rightarrow>
                  let st_size = length contents;
                      size = min (fread_count env) st_size;
                      in_buf = take size contents
                  in if size = 0 \<and> fread_ferror env then (fs1, FREAD_FAILED)
                     else if backend \<noteq> HAVE_NETTLE \<and> \<not> cipher_ok env
                     then (fs1, CIPHER_FAILED)
                     else
                       let padded = add_padding in_buf;
                           final_size = length padded;
                           out = cbc (key sink) (init_encrypting_iv host (index sink)) padded;
                           n_written = min (fwrite_count env) final_size;
                           fs2 = fs1(encrypted_file \<mapsto> take n_written out)
                       in if n_written \<noteq> final_size then (fs2, FWRITE_FAILED)
                          else if \<not> rename_ok env then (fs2, RENAME_FAILED)
                          else if encrypted_file = chunk_file then (fs2, ENCRYPT_DONE)
                          else ((fs2(chunk_file := fs2 encrypted_file))
                                  (encrypted_file := None), ENCRYPT_DONE)))"

subsection \<open>The message handler\<close>

text \<open>
  The conversion of a \<open>guint64\<close> to \<open>gfloat\<close> at the call of
  \<open>gst_m3u8_playlist_add_entry\<close>: the nearest number with a 24-bit significand, ties to
  the even one. \<open>g_date_time_add_seconds\<close> multiplies the seconds by a million in
  \<open>double\<close>, adds the whole microseconds of the product, and gives \<open>NULL\<close> on
  \<open>NULL\<close>.
\<close>

definition gfloat_of_guint64 :: "guint64 \<Rightarrow> real" where
  "gfloat_of_guint64 w =
     (let n = unat w
      in if n < 2 ^ 24 then real n
         else
           let e = floorlog 2 n - 24;
               q = n div 2 ^ e;
               r = n mod 2 ^ e;
               q' = (if 2 * r > 2 ^ e \<or> (2 * r = 2 ^ e \<and> odd q) then q + 1 else q)
           in real (q' * 2 ^ e))"

definition g_date_time_add_seconds ::
  "(real \<Rightarrow> real) \<Rightarrow> GDateTime option \<Rightarrow> real \<Rightarrow> GDateTime option" where
  "g_date_time_add_seconds round_double datetime seconds =
     (case datetime of
        None \<Rightarrow> None
      | Some dt \<Rightarrow> Some (dt + truncate_real (round_double (seconds * 1000000))))"

text \<open>
  What is fixed when the sink is built and run: the cipher library, the byte order of
  the host, the cipher, the two formatting functions of the C library and GLib, the
  rounding of a real number to single and to double precision, and
  \<open>gst_m3u8_playlist_add_discontinuity\<close>, which gstm3u8playlist.h declares.
\<close>

record platform =
  crypto :: crypto_backend
  host_byte_order :: byte_order
  aes_128_cbc :: "byte list \<Rightarrow> byte list \<Rightarrow> byte list \<Rightarrow> byte list"
  g_date_time_format :: "GDateTime \<Rightarrow> string option"
  printf_6f :: "real \<Rightarrow> string"
  to_gfloat :: "real \<Rightarrow> real"
  to_double :: "real \<Rightarrow> real"
  gst_m3u8_playlist_add_discontinuity :: "GstM3U8Playlist \<Rightarrow> GstM3U8Playlist"

text \<open>
  \<open>gst_hls_sink_write_playlist\<close>: the rendering and \<open>g_file_set_contents\<close>, which
  replaces the file as a whole or, when it fails (\<open>write_ok\<close> false, or no contents),
  leaves it as it was. The result is the file system and the text rendered.
\<close>

definition gst_hls_sink_write_playlist ::
  "platform \<Rightarrow> bool \<Rightarrow> GstHlsSink \<Rightarrow> filesystem \<Rightarrow> filesystem \<times> string option" where
  "gst_hls_sink_write_playlist pf write_ok sink fs =
     (case gst_m3u8_playlist_render (g_date_time_format pf) (printf_6f pf) (to_gfloat pf)
             (playlist sink) of
        None \<Rightarrow> (fs, None)
      | Some playlist_content \<Rightarrow>
          (if write_ok
           then fs(file_of_path (playlist_location sink) \<mapsto>
                     map (\<lambda>c. word_of_nat (of_char c)) playlist_content)
           else fs,
           Some playlist_content))"

text \<open>
  The messages the handler tells apart: an element message with the name of its
  structure, its \<open>filename\<close> and its \<open>running-time\<close>, the end of the stream, any other.
  What the environment answers during one call is in \<open>handler_env\<close>.
\<close>

datatype GstMessage =
  GST_MESSAGE_ELEMENT string string GstClockTime
| GST_MESSAGE_EOS
| GST_MESSAGE_OTHER

record handler_env =
  encrypt_answers :: encrypt_env
  write_ok :: bool
  push_ok :: bool

text \<open>
  The handler calls four functions that act on the playlist, the files and the pad. The
  model records each call, in the order the calls are made, with what it was given or
  what it returned.
\<close>

datatype effect =
  PLAYLIST_ADD_ENTRY string bool
| ENCRYPT_CHUNK string encrypt_outcome
| WRITE_PLAYLIST "string option"
| SCHEDULE_NEXT_KEY_UNIT "pushed_event list"

datatype effect_kind = ADD_ENTRY | ENCRYPT | WRITE | SCHEDULE

fun kind_of :: "effect \<Rightarrow> effect_kind" where
  "kind_of (PLAYLIST_ADD_ENTRY _ _) = ADD_ENTRY"
| "kind_of (ENCRYPT_CHUNK _ _) = ENCRYPT"
| "kind_of (WRITE_PLAYLIST _) = WRITE"
| "kind_of (SCHEDULE_NEXT_KEY_UNIT _) = SCHEDULE"

text \<open>
  \<open>gst_hls_sink_handle_message\<close>, up to the call of the parent class's handler. The
  time of the chunk is computed in \<open>double\<close>: the two integers are converted, each
  quotient and the sum are rounded. The result is the sink, the file system and the calls
  made.
\<close>

definition gst_hls_sink_handle_message ::
  "platform \<Rightarrow> handler_env \<Rightarrow> GstHlsSink \<Rightarrow> filesystem \<Rightarrow> GstMessage \<Rightarrow>
     GstHlsSink \<times> filesystem \<times> effect list" where
  "gst_hls_sink_handle_message pf env sink fs message =
     (case message of
        GST_MESSAGE_ELEMENT name filename running_time \<Rightarrow>
          if name \<noteq> ''GstMultiFileSink'' then (sink, fs, [])
          else
            let dur = running_time - last_running_time sink;
                chunk_time =
                  to_double pf
                    (to_double pf (to_double pf (real (unat (last_running_time sink)))
                                     / real GST_SECOND)
                     + to_double pf (to_double pf (real_of_int (program_date_time_shift sink))
                                       / real GST_SECOND));
                pdt = g_date_time_add_seconds (to_double pf) (start_time sink) chunk_time;
                sink1 = sink\<lparr>last_running_time := running_time\<rparr>;
                entry_location =
                  (case playlist_root sink1 of
                     None \<Rightarrow> g_path_get_basename filename
                   | Some r \<Rightarrow> g_build_filename r (g_path_get_basename filename))
            in
              (case gst_m3u8_playlist_add_entry (playlist sink1) (Some entry_location) None
                      (gfloat_of_guint64 dur) (index sink1) False pdt of
                 (added, playlist') \<Rightarrow>
                   let sink2 = sink1\<lparr>playlist := playlist'\<rparr> in
                   (case (if sink_encryption_method sink2 \<noteq> GST_HLS_SINK_ENC_NONE
                          then (case gst_hls_sink_encrypt_chunk (crypto pf) (host_byte_order pf)
                                       (aes_128_cbc pf) (encrypt_answers env) sink2 fs filename of
                                  (fs', outcome) \<Rightarrow> (fs', [ENCRYPT_CHUNK filename outcome]))
                          else (fs, [])) of
                      (fs1, encrypt_calls) \<Rightarrow>
                        (case gst_hls_sink_write_playlist pf (write_ok env) sink2 fs1 of
                           (fs2, content) \<Rightarrow>
                             let sink3 = sink2\<lparr>state := state sink2
                                                         OR GST_M3U8_PLAYLIST_RENDER_STARTED\<rparr>;
                                 sink4 = sink3\<lparr>waiting_fku := False\<rparr>
                             in
                               (case schedule_next_key_unit (push_ok env) sink4 of
                                  (res, sink5, events) \<Rightarrow>
                                    (sink5, fs2,
                                     [PLAYLIST_ADD_ENTRY entry_location added] @ encrypt_calls
                                       @ [WRITE_PLAYLIST content,
                                          SCHEDULE_NEXT_KEY_UNIT events])))))
      | GST_MESSAGE_EOS \<Rightarrow>
          let sink1 =
                (if is_reset_index_on_stop sink
                 then sink\<lparr>playlist := map_option (\<lambda>p. p\<lparr>end_list := True\<rparr>) (playlist sink)\<rparr>
                 else sink\<lparr>playlist :=
                             map_option
                               (\<lambda>p. let p' = gst_m3u8_playlist_add_discontinuity pf p
                                    in p'\<lparr>sequence_number := sequence_number p' + 1\<rparr>)
                               (playlist sink),
                           index := index sink + 1\<rparr>)
          in
            (case gst_hls_sink_write_playlist pf (write_ok env) sink1 fs of
               (fs1, content) \<Rightarrow>
                 (sink1\<lparr>state := state sink1 OR GST_M3U8_PLAYLIST_RENDER_ENDED\<rparr>, fs1,
                  [WRITE_PLAYLIST content]))
      | GST_MESSAGE_OTHER \<Rightarrow> (sink, fs, []))"

section \<open>Properties of the playlist\<close>

subsection \<open>Adding entries\<close>

lemma delete_old_entries_drop:
  "0 < w \<Longrightarrow> delete_old_entries w es = drop (length es - (w - 1)) es"
proof (induction es)
  case Nil
  then show ?case by simp
next
  case (Cons e es)
  show ?case
  proof (cases "w \<le> length (e # es)")
    case True
    then have "length (e # es) - (w - 1) = Suc (length es - (w - 1))"
      using Cons.prems by simp
    with True Cons show ?thesis by simp
  next
    case False
    then show ?thesis by simp
  qed
qed

lemma add_entry_call_apply_True:
  assumes "add_entry_call_apply (Some p) c = (True, q)"
  obtains u where "call_url c = Some u" and "type p \<noteq> GST_M3U8_PLAYLIST_TYPE_VOD"
    and "add_entry_call_entry c = Some \<lparr>duration = call_duration c, title = call_title c, url = u,
           discontinuous = call_discontinuous c, program_date_time = call_program_date_time c\<rparr>"
    and "q = Some (p\<lparr>sequence_number := call_index c + 1,
                     entries := (if 0 < unat (window_size p)
                                 then delete_old_entries (unat (window_size p)) (entries p)
                                 else entries p)
                       @ [\<lparr>duration = call_duration c, title = call_title c, url = u,
           discontinuous = call_discontinuous c, program_date_time = call_program_date_time c\<rparr>]\<rparr>)"
  using assms
  by (auto simp: add_entry_call_apply_def add_entry_call_entry_def gst_m3u8_playlist_add_entry_def
      gst_m3u8_entry_new_def Let_def split: option.splits if_splits)

lemma add_entry_call_apply_None:
  "add_entry_call_apply None c = (False, None)"
  by (simp add: add_entry_call_apply_def gst_m3u8_playlist_add_entry_def)

lemma add_entry_step_window:
  assumes "add_entry_call_apply (Some p) c = (True, q)" and "0 < unat (window_size p)"
  shows "\<exists>p'. q = Some p' \<and> window_size p' = window_size p \<and>
           map Some (entries p') =
             drop (length (entries p) + 1 - unat (window_size p))
               (map Some (entries p) @ [add_entry_call_entry c])"
proof -
  from assms(1) obtain e where e: "add_entry_call_entry c = Some e"
    and q: "q = Some (p\<lparr>sequence_number := call_index c + 1,
                     entries := (if 0 < unat (window_size p)
                                 then delete_old_entries (unat (window_size p)) (entries p)
                                 else entries p) @ [e]\<rparr>)"
    by (rule add_entry_call_apply_True)
  have "length (entries p) - (unat (window_size p) - 1) = length (entries p) + 1 - unat (window_size p)"
    using assms(2) by arith
  then show ?thesis
    using assms(2) by (simp add: q e delete_old_entries_drop drop_map)
qed


lemma add_entry_calls_window:
  assumes "0 < unat (window_size p)"
    and "add_entry_calls (Some p) cs = (rs, q)"
    and "list_all (\<lambda>r. r) rs"
    and "cs \<noteq> []"
  shows "\<exists>p'. q = Some p' \<and> window_size p' = window_size p \<and>
           map Some (entries p') =
             drop (length (entries p) + length cs - unat (window_size p))
               (map Some (entries p) @ map add_entry_call_entry cs)"
  using assms
proof (induction cs arbitrary: p rs q)
  case Nil
  then show ?case by simp
next
  case (Cons c cs)
  obtain r q1 where step: "add_entry_call_apply (Some p) c = (r, q1)"
    by (cases "add_entry_call_apply (Some p) c")
  obtain rs' q' where rest: "add_entry_calls q1 cs = (rs', q')"
    by (cases "add_entry_calls q1 cs")
  from Cons.prems(2) step rest have rs: "rs = r # rs'" and q: "q = q'"
    by simp_all
  from Cons.prems(3) rs have r: "r" and ok: "list_all (\<lambda>r. r) rs'"
    by simp_all
  let ?W = "unat (window_size p)"
  let ?k = "length (entries p) + 1 - ?W"
  from add_entry_step_window [OF step [unfolded eqTrueI [OF r]] Cons.prems(1)]
  obtain p1 where q1: "q1 = Some p1" and w1: "window_size p1 = window_size p"
    and e1: "map Some (entries p1) = drop ?k (map Some (entries p) @ [add_entry_call_entry c])"
    by blast
  show ?case
  proof (cases "cs = []")
    case True
    with rest q1 q have "q = Some p1" by simp
    with w1 e1 True show ?thesis by simp
  next
    case False
    have len1: "length (entries p1) = length (entries p) + 1 - ?k"
    proof -
      have "length (map Some (entries p1)) =
              length (drop ?k (map Some (entries p) @ [add_entry_call_entry c]))"
        by (simp only: e1)
      then show ?thesis
        by (simp only: length_map length_drop length_append list.size)
    qed
    from Cons.IH [OF _ rest [unfolded q1] ok False] Cons.prems(1) w1
    obtain p' where p': "q' = Some p'" "window_size p' = window_size p"
       and ents: "map Some (entries p') =
               drop (length (entries p1) + length cs - ?W)
                 (map Some (entries p1) @ map add_entry_call_entry cs)"
      by auto
    define Y where "Y = map Some (entries p) @ map add_entry_call_entry (c # cs)"
    have "map Some (entries p1) @ map add_entry_call_entry cs = drop ?k Y"
      unfolding Y_def using Cons.prems(1) by (simp add: e1)
    with ents have "map Some (entries p') =
        drop (length (entries p1) + length cs - ?W) (drop ?k Y)"
      by (simp only:)
    then have "map Some (entries p') =
        drop (length (entries p1) + length cs - ?W + ?k)
           (map Some (entries p) @ map add_entry_call_entry (c # cs))"
      by (simp only: drop_drop Y_def)
    moreover have "length (entries p1) + length cs - ?W + ?k
          = length (entries p) + length (c # cs) - ?W"
      using len1 Cons.prems(1) by simp
    ultimately show ?thesis using p' q by simp
  qed
qed

lemma add_entry_step_sequence:
  assumes "add_entry_call_apply (Some p) c = (True, q)"
  shows "\<exists>p'. q = Some p' \<and> sequence_number p' = call_index c + 1"
  using assms by (rule add_entry_call_apply_True) simp

lemma consecutive_indices_Cons:
  assumes "map call_index (c # cs) = map (\<lambda>k. s + word_of_nat k) [0..<length (c # cs)]"
  shows "call_index c = s"
    and "map call_index cs = map (\<lambda>k. (s + 1) + word_of_nat k) [0..<length cs]"
proof -
  have upt: "[0..<Suc (length cs)] = 0 # map Suc [0..<length cs]"
    by (simp add: upt_conv_Cons map_Suc_upt del: upt_Suc)
  from assms show "call_index c = s"
    by (simp add: upt del: upt_Suc)
  from assms show "map call_index cs = map (\<lambda>k. (s + 1) + word_of_nat k) [0..<length cs]"
    by (simp add: upt comp_def add.assoc del: upt_Suc)
qed

lemma add_entry_calls_sequence:
  assumes "add_entry_calls (Some p) cs = (rs, q)"
    and "list_all (\<lambda>r. r) rs"
    and "map call_index cs = map (\<lambda>k. sequence_number p + word_of_nat k) [0..<length cs]"
  shows "\<exists>p'. q = Some p' \<and> sequence_number p' = sequence_number p + word_of_nat (length cs)"
  using assms
proof (induction cs arbitrary: p rs q)
  case Nil
  then show ?case by auto
next
  case (Cons c cs)
  obtain r q1 where step: "add_entry_call_apply (Some p) c = (r, q1)"
    by (cases "add_entry_call_apply (Some p) c")
  obtain rs' q' where rest: "add_entry_calls q1 cs = (rs', q')"
    by (cases "add_entry_calls q1 cs")
  from Cons.prems(1) step rest have rs: "rs = r # rs'" and q: "q = q'"
    by simp_all
  from Cons.prems(2) rs have r: "r" and ok: "list_all (\<lambda>r. r) rs'"
    by simp_all
  from add_entry_step_sequence [OF step [unfolded eqTrueI [OF r]]]
  obtain p1 where q1: "q1 = Some p1" and s1: "sequence_number p1 = call_index c + 1"
    by blast
  from consecutive_indices_Cons [OF Cons.prems(3)]
  have c: "call_index c = sequence_number p"
    and cs: "map call_index cs = map (\<lambda>k. (sequence_number p + 1) + word_of_nat k) [0..<length cs]"
    by simp_all
  from Cons.IH [OF rest [unfolded q1] ok] cs s1 c
  obtain p' where "q' = Some p'"
    and "sequence_number p' = sequence_number p + 1 + word_of_nat (length cs)"
    by auto
  then show ?case using q by (simp add: add.assoc add.commute)
qed

lemma unat_add_length:
  fixes s :: guint
  assumes "unat s + n < 2 ^ 32"
  shows "unat (s + word_of_nat n) = unat s + n"
proof -
  have "unat (s + word_of_nat n) = (unat s + n mod 2 ^ 32) mod 2 ^ 32"
    by (simp add: unat_word_ariths unat_of_nat)
  also have "\<dots> = unat s + n" using assms by simp
  finally show ?thesis .
qed

text \<open>
  Claim C10. A call of \<open>gst_m3u8_playlist_add_entry\<close> with a \<open>NULL\<close> url returns
  \<open>FALSE\<close> and leaves the playlist as it was, whatever the other arguments are: nothing
  is appended, nothing is evicted, the sequence number keeps its value. A call on the
  \<open>NULL\<close> playlist returns \<open>FALSE\<close> as well.
\<close>

theorem add_entry_null_arguments:
  "gst_m3u8_playlist_add_entry (Some p) None t d i disc pdt = (False, Some p)
   \<and> gst_m3u8_playlist_add_entry None u t d i disc pdt = (False, None)"
  by (simp add: gst_m3u8_playlist_add_entry_def)

text \<open>
  Claim C2 says that \<open>gst_m3u8_playlist_add_entry\<close> fails on a playlist whose
  \<open>end_list\<close> flag is set. The function does not read the flag: on the playlist that
  \<open>gst_m3u8_playlist_new\<close> returns, with the flag set, the call succeeds and appends.
\<close>

theorem add_entry_after_end_list_counterexample:
  "end_list ((gst_m3u8_playlist_new 3 0)\<lparr>end_list := True\<rparr>) \<and>
   gst_m3u8_playlist_add_entry (Some ((gst_m3u8_playlist_new 3 0)\<lparr>end_list := True\<rparr>))
       (Some ''segment00000.ts'') None 1000000000 0 False None
     = (True, Some ((gst_m3u8_playlist_new 3 0)
          \<lparr>end_list := True, sequence_number := 1,
            entries := [\<lparr>duration = 1000000000, title = None, url = ''segment00000.ts'',
                         discontinuous = False, program_date_time = None\<rparr>]\<rparr>))"
  by (simp add: gst_m3u8_playlist_add_entry_def gst_m3u8_playlist_new_def gst_m3u8_entry_new_def)

text \<open>
  Claim C2, amended. The test the function makes is on the type of the playlist: on a
  playlist of type \<open>GST_M3U8_PLAYLIST_TYPE_VOD\<close> every call returns \<open>FALSE\<close> and leaves
  the queue, the sequence number and every other field unchanged.
\<close>

theorem add_entry_vod_fails:
  assumes "type p = GST_M3U8_PLAYLIST_TYPE_VOD"
  shows "gst_m3u8_playlist_add_entry (Some p) u t d i disc pdt = (False, Some p)"
  using assms by (simp add: gst_m3u8_playlist_add_entry_def split: option.splits)

theorem add_entry_vod_fails_witness:
  "type ((gst_m3u8_playlist_new 3 0)\<lparr>type := GST_M3U8_PLAYLIST_TYPE_VOD, end_list := True\<rparr>)
     = GST_M3U8_PLAYLIST_TYPE_VOD \<and>
   gst_m3u8_playlist_add_entry
       (Some ((gst_m3u8_playlist_new 3 0)\<lparr>type := GST_M3U8_PLAYLIST_TYPE_VOD, end_list := True\<rparr>))
       (Some ''segment00000.ts'') None 1000000000 0 False None
     = (False, Some ((gst_m3u8_playlist_new 3 0)\<lparr>type := GST_M3U8_PLAYLIST_TYPE_VOD, end_list := True\<rparr>))"
  using add_entry_vod_fails
    [of "(gst_m3u8_playlist_new 3 0)\<lparr>type := GST_M3U8_PLAYLIST_TYPE_VOD, end_list := True\<rparr>"
        "Some ''segment00000.ts''" None 1000000000 0 False None]
  by simp

text \<open>
  Claim C4. On a playlist with a window size \<open>W > 0\<close>, after any non-empty sequence of
  calls of \<open>gst_m3u8_playlist_add_entry\<close> that all succeed, the window size is still
  \<open>W\<close>, the queue holds at most \<open>W\<close> entries, and these are the last \<open>W\<close> of the
  entries the playlist held before followed by the entries added, in that order (all of
  them while there are fewer than \<open>W\<close>). Every prefix of a sequence of calls is such a
  sequence, so this holds after each call.
\<close>

theorem add_entry_calls_keep_window:
  assumes "0 < unat (window_size p)"
    and "add_entry_calls (Some p) cs = (rs, q)"
    and "list_all (\<lambda>r. r) rs"
    and "cs \<noteq> []"
  shows "\<exists>p'. q = Some p' \<and> window_size p' = window_size p \<and>
           length (entries p') \<le> unat (window_size p) \<and>
           map Some (entries p') =
             drop (length (entries p) + length cs - unat (window_size p))
               (map Some (entries p) @ map add_entry_call_entry cs)"
proof -
  from add_entry_calls_window [OF assms]
  obtain p' where p': "q = Some p'" "window_size p' = window_size p"
    and ents: "map Some (entries p') =
             drop (length (entries p) + length cs - unat (window_size p))
               (map Some (entries p) @ map add_entry_call_entry cs)"
    by blast
  have "length (map Some (entries p')) =
          length (drop (length (entries p) + length cs - unat (window_size p))
               (map Some (entries p) @ map add_entry_call_entry cs))"
    by (simp only: ents)
  then have "length (entries p') \<le> unat (window_size p)"
    by (simp only: length_map length_drop length_append)
  with p' ents show ?thesis by blast
qed

theorem add_entry_calls_keep_window_witness:
  "0 < unat (window_size (gst_m3u8_playlist_new 3 2)) \<and>
   add_entry_calls (Some (gst_m3u8_playlist_new 3 2))
     [\<lparr>call_url = Some ''a.ts'', call_title = None, call_duration = 1000000000, call_index = 0,
        call_discontinuous = False, call_program_date_time = None\<rparr>,
      \<lparr>call_url = Some ''b.ts'', call_title = None, call_duration = 1000000000, call_index = 1,
        call_discontinuous = False, call_program_date_time = None\<rparr>,
      \<lparr>call_url = Some ''c.ts'', call_title = None, call_duration = 1000000000, call_index = 2,
        call_discontinuous = False, call_program_date_time = None\<rparr>]
   = ([True, True, True],
      Some ((gst_m3u8_playlist_new 3 2)
        \<lparr>sequence_number := 3,
          entries := [\<lparr>duration = 1000000000, title = None, url = ''b.ts'',
                        discontinuous = False, program_date_time = None\<rparr>,
                      \<lparr>duration = 1000000000, title = None, url = ''c.ts'',
                        discontinuous = False, program_date_time = None\<rparr>]\<rparr>)) \<and>
   length (entries ((gst_m3u8_playlist_new 3 2)
        \<lparr>sequence_number := 3,
          entries := [\<lparr>duration = 1000000000, title = None, url = ''b.ts'',
                        discontinuous = False, program_date_time = None\<rparr>,
                      \<lparr>duration = 1000000000, title = None, url = ''c.ts'',
                        discontinuous = False, program_date_time = None\<rparr>]\<rparr>))
     \<le> unat (window_size (gst_m3u8_playlist_new 3 2))"
proof -
  let ?p = "gst_m3u8_playlist_new 3 2"
  let ?cs = "[\<lparr>call_url = Some ''a.ts'', call_title = None, call_duration = 1000000000, call_index = 0,
        call_discontinuous = False, call_program_date_time = None\<rparr>,
      \<lparr>call_url = Some ''b.ts'', call_title = None, call_duration = 1000000000, call_index = 1,
        call_discontinuous = False, call_program_date_time = None\<rparr>,
      \<lparr>call_url = Some ''c.ts'', call_title = None, call_duration = 1000000000, call_index = 2,
        call_discontinuous = False, call_program_date_time = None\<rparr>]"
  let ?q = "?p\<lparr>sequence_number := 3,
          entries := [\<lparr>duration = 1000000000, title = None, url = ''b.ts'',
                        discontinuous = False, program_date_time = None\<rparr>,
                      \<lparr>duration = 1000000000, title = None, url = ''c.ts'',
                        discontinuous = False, program_date_time = None\<rparr>]\<rparr>"
  have w: "0 < unat (window_size ?p)"
    by (simp add: gst_m3u8_playlist_new_def)
  have run: "add_entry_calls (Some ?p) ?cs = ([True, True, True], Some ?q)"
    by (simp add: add_entry_call_apply_def gst_m3u8_playlist_add_entry_def
        gst_m3u8_playlist_new_def gst_m3u8_entry_new_def)
  from add_entry_calls_keep_window [OF w run]
  have "length (entries ?q) \<le> unat (window_size ?p)"
    by simp
  with w run show ?thesis by blast
qed

text \<open>
  Claim C5 says that the sequence number after \<open>N\<close> successful calls is its prior value
  plus \<open>N\<close>, and that it never decreases. The function assigns \<open>index + 1\<close>, with the
  index the caller passes: on a new playlist (sequence number 0) one call with index 7
  leaves 8, not 1, and a second call with index 2 leaves 3, which is neither 2 nor at
  least 8.
\<close>

theorem add_entry_sequence_number_counterexample:
  "add_entry_calls (Some (gst_m3u8_playlist_new 3 0))
     [\<lparr>call_url = Some ''a.ts'', call_title = None, call_duration = 1000000000, call_index = 7,
        call_discontinuous = False, call_program_date_time = None\<rparr>]
   = ([True],
      Some ((gst_m3u8_playlist_new 3 0)
        \<lparr>sequence_number := 8,
          entries := [\<lparr>duration = 1000000000, title = None, url = ''a.ts'',
                        discontinuous = False, program_date_time = None\<rparr>]\<rparr>)) \<and>
   add_entry_calls (Some (gst_m3u8_playlist_new 3 0))
     [\<lparr>call_url = Some ''a.ts'', call_title = None, call_duration = 1000000000, call_index = 7,
        call_discontinuous = False, call_program_date_time = None\<rparr>,
      \<lparr>call_url = Some ''b.ts'', call_title = None, call_duration = 1000000000, call_index = 2,
        call_discontinuous = False, call_program_date_time = None\<rparr>]
   = ([True, True],
      Some ((gst_m3u8_playlist_new 3 0)
        \<lparr>sequence_number := 3,
          entries := [\<lparr>duration = 1000000000, title = None, url = ''a.ts'',
                        discontinuous = False, program_date_time = None\<rparr>,
                      \<lparr>duration = 1000000000, title = None, url = ''b.ts'',
                        discontinuous = False, program_date_time = None\<rparr>]\<rparr>)) \<and>
   sequence_number (gst_m3u8_playlist_new 3 0) = 0 \<and>
   (8 :: guint) \<noteq> 0 + 1 \<and> (3 :: guint) \<noteq> 0 + 2 \<and> (3 :: guint) < 8"
  by (simp add: add_entry_call_apply_def gst_m3u8_playlist_add_entry_def
        gst_m3u8_playlist_new_def gst_m3u8_entry_new_def)

text \<open>
  Claim C5, amended. When the calls pass consecutive indices that start at the prior
  sequence number, as a caller that counts its segments does, the sequence number after
  \<open>N\<close> successful calls is the prior value plus \<open>N\<close> in 32-bit arithmetic, whether or
  not entries were evicted; as long as that sum stays below \<open>2 ^ 32\<close> it is the sum
  itself, and so not below the prior value.
\<close>

theorem add_entry_calls_sequence_number:
  assumes "add_entry_calls (Some p) cs = (rs, q)"
    and "list_all (\<lambda>r. r) rs"
    and "map call_index cs = map (\<lambda>k. sequence_number p + word_of_nat k) [0..<length cs]"
  shows "\<exists>p'. q = Some p' \<and>
           sequence_number p' = sequence_number p + word_of_nat (length cs) \<and>
           (unat (sequence_number p) + length cs < 2 ^ 32 \<longrightarrow>
              unat (sequence_number p') = unat (sequence_number p) + length cs)"
proof -
  from add_entry_calls_sequence [OF assms]
  obtain p' where p': "q = Some p'"
    and s: "sequence_number p' = sequence_number p + word_of_nat (length cs)"
    by blast
  have "unat (sequence_number p) + length cs < 2 ^ 32 \<longrightarrow>
          unat (sequence_number p') = unat (sequence_number p) + length cs"
    by (simp only: s) (simp add: unat_add_length)
  with p' s show ?thesis by blast
qed

theorem add_entry_calls_sequence_number_witness:
  "add_entry_calls (Some (gst_m3u8_playlist_new 3 2))
     [\<lparr>call_url = Some ''a.ts'', call_title = None, call_duration = 1000000000, call_index = 0,
        call_discontinuous = False, call_program_date_time = None\<rparr>,
      \<lparr>call_url = Some ''b.ts'', call_title = None, call_duration = 1000000000, call_index = 1,
        call_discontinuous = False, call_program_date_time = None\<rparr>,
      \<lparr>call_url = Some ''c.ts'', call_title = None, call_duration = 1000000000, call_index = 2,
        call_discontinuous = False, call_program_date_time = None\<rparr>]
   = ([True, True, True],
      Some ((gst_m3u8_playlist_new 3 2)
        \<lparr>sequence_number := 3,
          entries := [\<lparr>duration = 1000000000, title = None, url = ''b.ts'',
                        discontinuous = False, program_date_time = None\<rparr>,
                      \<lparr>duration = 1000000000, title = None, url = ''c.ts'',
                        discontinuous = False, program_date_time = None\<rparr>]\<rparr>)) \<and>
   sequence_number (gst_m3u8_playlist_new 3 2) = 0 \<and>
   unat (sequence_number ((gst_m3u8_playlist_new 3 2)
        \<lparr>sequence_number := 3,
          entries := [\<lparr>duration = 1000000000, title = None, url = ''b.ts'',
                        discontinuous = False, program_date_time = None\<rparr>,
                      \<lparr>duration = 1000000000, title = None, url = ''c.ts'',
                        discontinuous = False, program_date_time = None\<rparr>]\<rparr>))
     = unat (sequence_number (gst_m3u8_playlist_new 3 2)) + 3"
proof -
  let ?p = "gst_m3u8_playlist_new 3 2"
  let ?cs = "[\<lparr>call_url = Some ''a.ts'', call_title = None, call_duration = 1000000000, call_index = 0,
        call_discontinuous = False, call_program_date_time = None\<rparr>,
      \<lparr>call_url = Some ''b.ts'', call_title = None, call_duration = 1000000000, call_index = 1,
        call_discontinuous = False, call_program_date_time = None\<rparr>,
      \<lparr>call_url = Some ''c.ts'', call_title = None, call_duration = 1000000000, call_index = 2,
        call_discontinuous = False, call_program_date_time = None\<rparr>]"
  let ?q = "?p\<lparr>sequence_number := 3,
          entries := [\<lparr>duration = 1000000000, title = None, url = ''b.ts'',
                        discontinuous = False, program_date_time = None\<rparr>,
                      \<lparr>duration = 1000000000, title = None, url = ''c.ts'',
                        discontinuous = False, program_date_time = None\<rparr>]\<rparr>"
  have s0: "sequence_number ?p = 0"
    by (simp add: gst_m3u8_playlist_new_def)
  have run: "add_entry_calls (Some ?p) ?cs = ([True, True, True], Some ?q)"
    by (simp add: add_entry_call_apply_def gst_m3u8_playlist_add_entry_def
        gst_m3u8_playlist_new_def gst_m3u8_entry_new_def)
  have idx: "map call_index ?cs = map (\<lambda>k. sequence_number ?p + word_of_nat k) [0..<length ?cs]"
    by (simp add: s0 upt_rec numeral_nat)
  from add_entry_calls_sequence_number [OF run _ idx]
  have "unat (sequence_number ?q) = unat (sequence_number ?p) + 3"
    by (simp add: s0)
  with run s0 show ?thesis by blast
qed

subsection \<open>Target duration and rendering\<close>

lemma printf_u_digit: "n < 10 \<Longrightarrow> printf_u n = [digit_char n]"
  by (subst printf_u.simps) simp

lemma ceiling_half: "\<lceil>1 / 2 :: real\<rceil> = 1"
  by (simp add: ceiling_eq_iff)

lemma target_duration_new:
  "gst_m3u8_playlist_target_duration (gst_m3u8_playlist_new v w) = 1"
  by (simp add: gst_m3u8_playlist_target_duration_def gst_m3u8_playlist_new_def
      GST_MSECOND_def GST_SECOND_def ceiling_half)

text \<open>
  Claim C3 says that the playlist \<open>gst_m3u8_playlist_new\<close> returns for version 3 and
  window size 0 renders with the line \<open>#EXT-X-TARGETDURATION:0\<close>. With no entry the
  maximum stays 0 and the function returns \<open>ceil (0.5)\<close>, which is 1, so the text
  rendered is not the one claimed (here with formatting and rounding functions that are
  never called, since there is no entry).
\<close>

theorem render_empty_playlist_counterexample:
  "gst_m3u8_playlist_render (\<lambda>dt. None) (\<lambda>x. []) (\<lambda>x. x)
       (Some (gst_m3u8_playlist_new 3 0)) \<noteq>
     Some ''#EXTM3U\<newline>#EXT-X-VERSION:3\<newline>#EXT-X-MEDIA-SEQUENCE:0\<newline>#EXT-X-TARGETDURATION:0\<newline>\<newline>''"
  by (simp add: gst_m3u8_playlist_render_def target_duration_new)
     (simp add: gst_m3u8_playlist_new_def printf_d_def digit_char_def printf_u_digit)

text \<open>
  Claim C3, amended. The rendering of that playlist is exactly the header with the
  target duration 1 and the empty line after it; no \<open>#EXT-X-ENDLIST\<close> follows.
\<close>

theorem render_empty_playlist:
  "gst_m3u8_playlist_render fmt_date fmt_float round_float
       (Some (gst_m3u8_playlist_new 3 0)) =
     Some ''#EXTM3U\<newline>#EXT-X-VERSION:3\<newline>#EXT-X-MEDIA-SEQUENCE:0\<newline>#EXT-X-TARGETDURATION:1\<newline>\<newline>''"
  by (simp add: gst_m3u8_playlist_render_def target_duration_new)
     (simp add: gst_m3u8_playlist_new_def printf_d_def digit_char_def printf_u_digit)

lemma printf_u_step: "10 \<le> n \<Longrightarrow> printf_u n = printf_u (n div 10) @ [digit_char n]"
  by (subst printf_u.simps) simp

lemma Max_insert_max:
  fixes a b :: real
  assumes "finite S"
  shows "Max (insert (max a b) S) = Max (insert a (insert b S))"
proof (cases "S = {}")
  case True
  then show ?thesis by (simp add: max.commute)
next
  case False
  with assms show ?thesis by (simp add: max.assoc)
qed

lemma target_duration_loop_Max:
  assumes "\<forall>e\<in>set es. duration e \<in> \<nat> \<and> duration e < 2 ^ 52"
  shows "real (unat (target_duration_loop es t))
           = Max (insert (real (unat t)) (duration ` set es))"
  using assms
proof (induction es arbitrary: t)
  case Nil
  then show ?case by simp
next
  case (Cons e es)
  from Cons.prems obtain n where n: "duration e = real n" and b: "duration e < 2 ^ 52"
    by (auto simp: Nats_def)
  from n b have "real n < 2 ^ 52" by simp
  then have "n < 2 ^ 52" by (metis of_nat_less_iff of_nat_numeral of_nat_power)
  then have n64: "n < 2 ^ 64" by simp
  have conv: "(unsigned (word_of_nat n :: guint64) :: real) = real n"
    using n64 by (simp add: unsigned_of_nat take_bit_nat_eq_self)
  have step: "real (unat (if duration e > real (unat t) then word_of_int \<lfloor>duration e\<rfloor> else t))
                = max (real (unat t)) (duration e)"
    by (simp add: n max_def conv)
  have "real (unat (target_duration_loop (e # es) t)) =
        Max (insert (max (real (unat t)) (duration e)) (duration ` set es))"
    using Cons.IH [of "if duration e > real (unat t) then word_of_int \<lfloor>duration e\<rfloor> else t"]
      Cons.prems step
    by simp
  also have "\<dots> = Max (insert (real (unat t)) (duration ` set (e # es)))"
    by (simp add: Max_insert_max)
  finally show ?case .
qed

lemma target_duration_loop_Max0:
  assumes "\<forall>e\<in>set es. duration e \<in> \<nat> \<and> duration e < 2 ^ 52" and "es \<noteq> []"
  shows "real (unat (target_duration_loop es 0)) = Max (duration ` set es)"
    and "0 \<le> Max (duration ` set es)" and "Max (duration ` set es) < 2 ^ 52"
proof -
  have nonneg: "\<forall>x\<in>duration ` set es. 0 \<le> x"
    using assms(1) by (auto simp: Nats_def)
  have ne: "duration ` set es \<noteq> {}" using assms(2) by simp
  have "Max (insert 0 (duration ` set es)) = max 0 (Max (duration ` set es))"
    using ne by simp
  also have "\<dots> = Max (duration ` set es)"
    using nonneg assms(2) by (cases es) (auto simp: max_def Max_ge_iff)
  finally show "real (unat (target_duration_loop es 0)) = Max (duration ` set es)"
    using target_duration_loop_Max [OF assms(1), of 0] by simp
  show "0 \<le> Max (duration ` set es)"
    using nonneg assms(2) by (cases es) (auto simp: Max_ge_iff)
  show "Max (duration ` set es) < 2 ^ 52"
    using assms(1) ne by simp
qed

lemma ceiling_seconds_bound:
  fixes m :: real
  assumes "0 \<le> m" and "m < 2 ^ 52"
  shows "0 \<le> \<lceil>(m + 500000000) / 1000000000\<rceil>"
    and "\<lceil>(m + 500000000) / 1000000000\<rceil> < 2 ^ 32"
proof -
  from assms(1) have "0 \<le> (m + 500000000) / 1000000000" by simp
  then show "0 \<le> \<lceil>(m + 500000000) / 1000000000\<rceil>"
    by (simp add: zero_le_ceiling)
  from assms(2) have "(m + 500000000) / 1000000000 \<le> 4503601" by simp
  then have "\<lceil>(m + 500000000) / 1000000000\<rceil> \<le> 4503601"
    by (simp add: ceiling_le_iff)
  then show "\<lceil>(m + 500000000) / 1000000000\<rceil> < 2 ^ 32" by simp
qed

lemma target_duration_value:
  assumes "entries p \<noteq> []"
    and "\<forall>e\<in>set (entries p). duration e \<in> \<nat> \<and> duration e < 2 ^ 52"
  shows "unat (gst_m3u8_playlist_target_duration p) =
           nat \<lceil>(Max (duration ` set (entries p)) + 500000000) / 1000000000\<rceil>"
proof -
  let ?c = "\<lceil>(Max (duration ` set (entries p)) + 500000000) / 1000000000\<rceil>"
  note M = target_duration_loop_Max0 [OF assms(2) assms(1)]
  have t: "gst_m3u8_playlist_target_duration p = word_of_int ?c"
    using M(1) by (simp add: gst_m3u8_playlist_target_duration_def GST_MSECOND_def GST_SECOND_def)
  from ceiling_seconds_bound [OF M(2) M(3)] have "0 \<le> ?c" and "?c < 2 ^ 32" .
  then have "unat (word_of_int ?c :: guint) = nat ?c"
    by (simp add: unat_eq_nat_uint uint_word_of_int take_bit_int_eq_self)
  with t show ?thesis by simp
qed


lemma render_entries_append:
  "render_entries fmt_date fmt_float round_float p h es (s @ t) =
     s @ render_entries fmt_date fmt_float round_float p h es t"
  by (induction es arbitrary: h t) (simp_all add: format_program_date_time_def Let_def split: option.splits)

lemma render_entries_prefix:
  "gst_m3u8_playlist_render fmt_date fmt_float round_float (Some p) =
     (let s5 = ''#EXTM3U\<newline>#EXT-X-VERSION:'' @ printf_d (sint (version p))
                 @ ''\<newline>#EXT-X-MEDIA-SEQUENCE:''
                 @ printf_d (sint (sequence_number p - word_of_nat (length (entries p))))
                 @ ''\<newline>#EXT-X-TARGETDURATION:''
                 @ printf_u (unat (gst_m3u8_playlist_target_duration p)) @ ''\<newline>''
                 @ (if encryption_method p \<noteq> 0 \<and> key_location p \<noteq> None
                    then ''#EXT-X-KEY:METHOD=''
                           @ printf_s (encryption_method_to_string (encryption_method p))
                           @ '',URI='' @ [CHR 0x22] @ printf_s (key_location p)
                           @ [CHR 0x22, CHR 0x0A]
                    else [])
                 @ ''\<newline>''
      in Some (s5 @ render_entries fmt_date fmt_float round_float p True (entries p) []
                 @ (if end_list p then ''#EXT-X-ENDLIST'' else [])))"
proof -
  have eq: "render_entries fmt_date fmt_float round_float p True (entries p) s =
          s @ render_entries fmt_date fmt_float round_float p True (entries p) []" for s
    using render_entries_append [of fmt_date fmt_float round_float p True "entries p" s "[]"]
    by simp
  have r: "gst_m3u8_playlist_render fmt_date fmt_float round_float (Some p) =
             (let s5 = ''#EXTM3U\<newline>#EXT-X-VERSION:'' @ printf_d (sint (version p))
                 @ ''\<newline>#EXT-X-MEDIA-SEQUENCE:''
                 @ printf_d (sint (sequence_number p - word_of_nat (length (entries p))))
                 @ ''\<newline>#EXT-X-TARGETDURATION:''
                 @ printf_u (unat (gst_m3u8_playlist_target_duration p)) @ ''\<newline>''
                 @ (if encryption_method p \<noteq> 0 \<and> key_location p \<noteq> None
                    then ''#EXT-X-KEY:METHOD=''
                           @ printf_s (encryption_method_to_string (encryption_method p))
                           @ '',URI='' @ [CHR 0x22] @ printf_s (key_location p)
                           @ [CHR 0x22, CHR 0x0A]
                    else [])
                 @ ''\<newline>''
              in Some (render_entries fmt_date fmt_float round_float p True (entries p) s5
                 @ (if end_list p then ''#EXT-X-ENDLIST'' else [])))"
    by (simp add: gst_m3u8_playlist_render_def Let_def)
  show ?thesis
    unfolding r Let_def by (subst eq) simp
qed

lemma printf_6f_decimal_2400: "printf_6f_decimal (12 / 5) = ''2.400000''"
  by (simp add: printf_6f_decimal_def Let_def printf_u_step printf_u_digit digit_char_def)

lemma printf_6f_decimal_2600: "printf_6f_decimal (13 / 5) = ''2.600000''"
  by (simp add: printf_6f_decimal_def Let_def printf_u_step printf_u_digit digit_char_def)

lemma replicate_5: "replicate 5 x = [x, x, x, x, x]"
  by (simp add: numeral_nat)

lemma printf_6f_decimal_3000: "printf_6f_decimal 3 = ''3.000000''"
  by (simp add: printf_6f_decimal_def Let_def printf_u_step printf_u_digit digit_char_def
      replicate_5)

text \<open>
  Claim C6. For a playlist that retains at least one entry, the durations being whole
  numbers of nanoseconds below \<open>2 ^ 52\<close> (52 days; every \<open>gfloat\<close> from \<open>2 ^ 23\<close> on is
  whole), the target duration is the ceiling of the largest retained duration plus
  500 ms, in seconds, and this is the number the rendering prints on its
  \<open>#EXT-X-TARGETDURATION\<close> line, the fourth line of the text, whatever the formatting
  of the entries after it. Below that bound the maximum fits the \<open>guint64\<close>, the sum
  and the ceiling are the ones that \<open>double\<close> arithmetic gives, and the ceiling fits
  the \<open>guint\<close>. The instance after the theorem is the one of the claim: durations of
  2.4 s, 2.6 s and 3.0 s give 4, and the playlist renders with the line
  \<open>#EXT-X-TARGETDURATION:4\<close>.
\<close>

theorem target_duration_ceiling:
  assumes "entries p \<noteq> []"
    and "\<forall>e\<in>set (entries p). duration e \<in> \<nat> \<and> duration e < 2 ^ 52"
  shows "unat (gst_m3u8_playlist_target_duration p) =
           nat \<lceil>(Max (duration ` set (entries p)) + 500000000) / 1000000000\<rceil> \<and>
         (\<exists>rest. gst_m3u8_playlist_render fmt_date fmt_float round_float (Some p) =
            Some (''#EXTM3U\<newline>#EXT-X-VERSION:'' @ printf_d (sint (version p))
                  @ ''\<newline>#EXT-X-MEDIA-SEQUENCE:''
                  @ printf_d (sint (sequence_number p - word_of_nat (length (entries p))))
                  @ ''\<newline>#EXT-X-TARGETDURATION:''
                  @ printf_u (nat \<lceil>(Max (duration ` set (entries p)) + 500000000)
                                     / 1000000000\<rceil>)
                  @ ''\<newline>'' @ rest))"
proof -
  let ?head = "\<lambda>t. ''#EXTM3U\<newline>#EXT-X-VERSION:'' @ printf_d (sint (version p))
                  @ ''\<newline>#EXT-X-MEDIA-SEQUENCE:''
                  @ printf_d (sint (sequence_number p - word_of_nat (length (entries p))))
                  @ ''\<newline>#EXT-X-TARGETDURATION:'' @ printf_u t @ ''\<newline>''"
  note v = target_duration_value [OF assms]
  define t where "t = unat (gst_m3u8_playlist_target_duration p)"
  define k where "k = (if encryption_method p \<noteq> 0 \<and> key_location p \<noteq> None
                     then ''#EXT-X-KEY:METHOD=''
                            @ printf_s (encryption_method_to_string (encryption_method p))
                            @ '',URI='' @ [CHR 0x22] @ printf_s (key_location p)
                            @ [CHR 0x22, CHR 0x0A]
                     else [])"
  define body where "body = render_entries fmt_date fmt_float round_float p True (entries p) []"
  have "gst_m3u8_playlist_render fmt_date fmt_float round_float (Some p) =
          Some (?head t @ (k @ ''\<newline>'' @ body @ (if end_list p then ''#EXT-X-ENDLIST'' else [])))"
    unfolding t_def k_def body_def
    by (simp add: render_entries_prefix Let_def)
  then show ?thesis using v unfolding t_def by auto
qed


theorem target_duration_ceiling_witness:
  "entries ((gst_m3u8_playlist_new 3 0)
     \<lparr>sequence_number := 3,
      entries := [\<lparr>duration = 2400000000, title = None, url = ''a.ts'',
                    discontinuous = False, program_date_time = None\<rparr>,
                  \<lparr>duration = 2600000000, title = None, url = ''b.ts'',
                    discontinuous = False, program_date_time = None\<rparr>,
                  \<lparr>duration = 3000000000, title = None, url = ''c.ts'',
                    discontinuous = False, program_date_time = None\<rparr>]\<rparr>) \<noteq> [] \<and>
   list_all (\<lambda>e. duration e \<in> \<nat> \<and> duration e < 2 ^ 52)
     (entries ((gst_m3u8_playlist_new 3 0)
     \<lparr>sequence_number := 3,
      entries := [\<lparr>duration = 2400000000, title = None, url = ''a.ts'',
                    discontinuous = False, program_date_time = None\<rparr>,
                  \<lparr>duration = 2600000000, title = None, url = ''b.ts'',
                    discontinuous = False, program_date_time = None\<rparr>,
                  \<lparr>duration = 3000000000, title = None, url = ''c.ts'',
                    discontinuous = False, program_date_time = None\<rparr>]\<rparr>)) \<and>
   unat (gst_m3u8_playlist_target_duration ((gst_m3u8_playlist_new 3 0)
     \<lparr>sequence_number := 3,
      entries := [\<lparr>duration = 2400000000, title = None, url = ''a.ts'',
                    discontinuous = False, program_date_time = None\<rparr>,
                  \<lparr>duration = 2600000000, title = None, url = ''b.ts'',
                    discontinuous = False, program_date_time = None\<rparr>,
                  \<lparr>duration = 3000000000, title = None, url = ''c.ts'',
                    discontinuous = False, program_date_time = None\<rparr>]\<rparr>)) = 4 \<and>
   gst_m3u8_playlist_render (\<lambda>dt. None) printf_6f_decimal (\<lambda>x. x) (Some ((gst_m3u8_playlist_new 3 0)
     \<lparr>sequence_number := 3,
      entries := [\<lparr>duration = 2400000000, title = None, url = ''a.ts'',
                    discontinuous = False, program_date_time = None\<rparr>,
                  \<lparr>duration = 2600000000, title = None, url = ''b.ts'',
                    discontinuous = False, program_date_time = None\<rparr>,
                  \<lparr>duration = 3000000000, title = None, url = ''c.ts'',
                    discontinuous = False, program_date_time = None\<rparr>]\<rparr>)) =
     Some ''#EXTM3U\<newline>#EXT-X-VERSION:3\<newline>#EXT-X-MEDIA-SEQUENCE:0\<newline>#EXT-X-TARGETDURATION:4\<newline>\<newline>#EXTINF:2.400000,\<newline>a.ts\<newline>#EXTINF:2.600000,\<newline>b.ts\<newline>#EXTINF:3.000000,\<newline>c.ts\<newline>''"
proof -
  let ?p = "((gst_m3u8_playlist_new 3 0)
     \<lparr>sequence_number := 3,
      entries := [\<lparr>duration = 2400000000, title = None, url = ''a.ts'',
                    discontinuous = False, program_date_time = None\<rparr>,
                  \<lparr>duration = 2600000000, title = None, url = ''b.ts'',
                    discontinuous = False, program_date_time = None\<rparr>,
                  \<lparr>duration = 3000000000, title = None, url = ''c.ts'',
                    discontinuous = False, program_date_time = None\<rparr>]\<rparr>)"
  have ne: "entries ?p \<noteq> []" by simp
  have whole: "\<forall>e\<in>set (entries ?p). duration e \<in> \<nat> \<and> duration e < 2 ^ 52" by simp
  have c: "\<lceil>7 / 2 :: real\<rceil> = 4" by (simp add: ceiling_eq_iff)
  from target_duration_ceiling [OF ne whole, of "\<lambda>dt. None" printf_6f_decimal "\<lambda>x. x"]
  have t: "unat (gst_m3u8_playlist_target_duration ?p) = 4"
    by (simp add: c)
  have "gst_m3u8_playlist_render (\<lambda>dt. None) printf_6f_decimal (\<lambda>x. x) (Some ?p) =
     Some ''#EXTM3U\<newline>#EXT-X-VERSION:3\<newline>#EXT-X-MEDIA-SEQUENCE:0\<newline>#EXT-X-TARGETDURATION:4\<newline>\<newline>#EXTINF:2.400000,\<newline>a.ts\<newline>#EXTINF:2.600000,\<newline>b.ts\<newline>#EXTINF:3.000000,\<newline>c.ts\<newline>''"
    unfolding gst_m3u8_playlist_render_def
    by (simp add: t)
      (simp add: gst_m3u8_playlist_new_def Let_def format_program_date_time_def printf_d_def
        printf_u_digit digit_char_def GST_SECOND_def
        printf_6f_decimal_2400 printf_6f_decimal_2600 printf_6f_decimal_3000)
  moreover have "list_all (\<lambda>e. duration e \<in> \<nat> \<and> duration e < 2 ^ 52) (entries ?p)"
    by simp
  ultimately show ?thesis using ne t by blast
qed

section \<open>Properties of the sink\<close>

subsection \<open>Initialisation vector\<close>

lemma byte_masks:
  "(0x000000ff :: guint) = mask 8"
  "(0x0000ff00 :: guint) = push_bit 8 (mask 8)"
  "(0x00ff0000 :: guint) = push_bit 16 (mask 8)"
  "(0xff000000 :: guint) = push_bit 24 (mask 8)"
  by (simp_all add: mask_eq_exp_minus_1 push_bit_eq_mult)

lemma swap_bytes:
  "ucast (GUINT32_SWAP_LE_BE v) = (ucast (drop_bit 24 v) :: byte)"
  "ucast (drop_bit 8 (GUINT32_SWAP_LE_BE v)) = (ucast (drop_bit 16 v) :: byte)"
  "ucast (drop_bit 16 (GUINT32_SWAP_LE_BE v)) = (ucast (drop_bit 8 v) :: byte)"
  "ucast (drop_bit 24 (GUINT32_SWAP_LE_BE v)) = (ucast v :: byte)"
  unfolding GUINT32_SWAP_LE_BE_def byte_masks
  by (rule bit_word_eqI; auto simp add: bit_simps)+

lemma create_iv_fold:
  "fold (\<lambda>i buf. buf[12 + i := r i]) [0..<4] (replicate 16 z) =
     replicate 12 z @ [r 0, r 1, r 2, r 3]"
  by (simp add: upt_rec numeral_nat)

lemma init_encrypting_iv_bytes:
  "init_encrypting_iv host idx =
     replicate 12 0 @ [ucast (drop_bit 24 idx), ucast (drop_bit 16 idx),
                       ucast (drop_bit 8 idx), ucast idx]"
proof -
  have "init_encrypting_iv host idx =
      replicate 12 0 @ map (\<lambda>i. guint_bytes host (GUINT_TO_BE host idx) ! i) [0, 1, 2, 3]"
    unfolding init_encrypting_iv_def gst_hls_sink_create_iv_def AES_BLOCK_SIZE_def Let_def
    using create_iv_fold [of "\<lambda>i. guint_bytes host (GUINT_TO_BE host idx) ! i" 0]
    by simp
  also have "map (\<lambda>i. guint_bytes host (GUINT_TO_BE host idx) ! i) [0, 1, 2, 3] =
     [ucast (drop_bit 24 idx), ucast (drop_bit 16 idx), ucast (drop_bit 8 idx),
      ucast idx]"
    by (cases host) (simp_all add: GUINT_TO_BE_def guint_bytes_def swap_bytes)
  finally show ?thesis .
qed

lemma replicate_12: "replicate 12 x = [x, x, x, x, x, x, x, x, x, x, x, x]"
  by (simp add: numeral_nat)

text \<open>
  The four bytes, most significant first, are the big-endian encoding: put together
  again in that order they give back the value.
\<close>

lemma big_endian_bytes_value:
  fixes v :: guint
  shows "push_bit 24 (ucast (ucast (drop_bit 24 v) :: byte))
           OR push_bit 16 (ucast (ucast (drop_bit 16 v) :: byte))
           OR push_bit 8 (ucast (ucast (drop_bit 8 v) :: byte))
           OR ucast (ucast v :: byte) = v"
proof (rule bit_word_eqI)
  fix n assume "n < LENGTH(32)"
  then have n: "n < 32" by simp
  consider "n < 8" | "8 \<le> n" "n < 16" | "16 \<le> n" "n < 24" | "24 \<le> n" "n < 32"
    using n by linarith
  then show "bit (push_bit 24 (ucast (ucast (drop_bit 24 v) :: byte))
           OR push_bit 16 (ucast (ucast (drop_bit 16 v) :: byte))
           OR push_bit 8 (ucast (ucast (drop_bit 8 v) :: byte))
           OR ucast (ucast v :: byte) :: guint) n = bit v n"
    by cases (auto simp add: bit_simps)
qed

text \<open>
  Claim C8. On a host of either byte order and for every index, the vector handed to
  the cipher has 16 bytes, the first 12 are zero, and the last 4 are the bytes of the
  index from the most significant to the least significant one, which is its big-endian
  encoding. For the index 5 the vector is fifteen zero bytes and the byte 5.
\<close>

theorem init_encrypting_iv_big_endian:
  "length (init_encrypting_iv host idx) = 16 \<and>
   take 12 (init_encrypting_iv host idx) = replicate 12 0 \<and>
   drop 12 (init_encrypting_iv host idx) =
     [ucast (drop_bit 24 idx), ucast (drop_bit 16 idx), ucast (drop_bit 8 idx),
      ucast idx] \<and>
   init_encrypting_iv host 5 = [0, 0, 0, 0, 0, 0, 0, 0, 0, 0, 0, 0, 0, 0, 0, 5]"
  by (simp add: init_encrypting_iv_bytes replicate_12)

subsection \<open>Scheduling\<close>

lemma check_schedule_delivered:
  assumes "gst_hls_sink_check_schedule_next_key_unit ok sink buffer = (sink', events)"
    and "list_ex snd events"
  shows "waiting_fku sink'"
  using assms
  by (auto simp: gst_hls_sink_check_schedule_next_key_unit_def schedule_next_key_unit_def
      Let_def split: if_splits)

lemma buffer_probe_waiting:
  "waiting_fku sink \<Longrightarrow> gst_hls_sink_ghost_buffer_probe ok sink buffer = (sink, [])"
  by (simp add: gst_hls_sink_ghost_buffer_probe_def)

lemma buffer_probe_delivered:
  assumes "gst_hls_sink_ghost_buffer_probe ok sink buffer = (sink', events)"
    and "list_ex snd events"
  shows "waiting_fku sink'"
  using assms
  by (auto simp: gst_hls_sink_ghost_buffer_probe_def dest: check_schedule_delivered
      split: if_splits)

lemma chain_list_loop_waiting:
  "waiting_fku sink \<Longrightarrow> chain_list_loop sink list = (sink, [])"
proof (induction list)
  case Nil
  then show ?case by simp
next
  case (Cons b list)
  obtain buffer ok1 ok2 flow_ok where b: "b = (buffer, ok1, ok2, flow_ok)"
    by (cases b)
  from Cons show ?case by (simp add: b buffer_probe_waiting)
qed

lemma chain_list_loop_delivered:
  assumes "chain_list_loop sink list = (sink', events)"
    and "list_ex snd events"
  shows "waiting_fku sink'"
  using assms
proof (induction list arbitrary: sink sink' events)
  case Nil
  then show ?case by simp
next
  case (Cons b list)
  obtain buffer ok1 ok2 flow_ok where b: "b = (buffer, ok1, ok2, flow_ok)"
    by (cases b)
  obtain sink1 events1 where c: "(if \<not> waiting_fku sink
            then gst_hls_sink_check_schedule_next_key_unit ok1 sink buffer
            else (sink, [])) = (sink1, events1)"
    by (cases "if \<not> waiting_fku sink
            then gst_hls_sink_check_schedule_next_key_unit ok1 sink buffer
            else (sink, [])")
  obtain sink2 events2 where p: "gst_hls_sink_ghost_buffer_probe ok2 sink1 buffer = (sink2, events2)"
    by (cases "gst_hls_sink_ghost_buffer_probe ok2 sink1 buffer")
  obtain sink3 events3 where l: "chain_list_loop sink2 list = (sink3, events3)"
    by (cases "chain_list_loop sink2 list")
  have w1: "waiting_fku sink1" if "list_ex snd events1"
    using c that by (auto split: if_splits dest: check_schedule_delivered)
  have w2: "waiting_fku sink2" if "list_ex snd events2"
    using p that by (rule buffer_probe_delivered)
  have keep2: "sink2 = sink1 \<and> events2 = []" if "waiting_fku sink1"
    using p that by (simp add: buffer_probe_waiting)
  have keep3: "sink3 = sink2 \<and> events3 = []" if "waiting_fku sink2"
    using l that by (simp add: chain_list_loop_waiting)
  have w3: "waiting_fku sink3" if "list_ex snd events3"
    using Cons.IH [OF l that] .
  show ?case
  proof (cases flow_ok)
    case True
    with Cons.prems(1) b c p l have r: "sink' = sink3" "events = events1 @ events2 @ events3"
      by simp_all
    from Cons.prems(2) r consider "list_ex snd events1" | "list_ex snd events2" | "list_ex snd events3"
      by auto
    then show ?thesis
    proof cases
      case 1
      with w1 keep2 keep3 r show ?thesis by simp
    next
      case 2
      with w2 keep3 r show ?thesis by simp
    next
      case 3
      with w3 r show ?thesis by simp
    qed
  next
    case False
    with Cons.prems(1) b c p have r: "sink' = sink2" "events = events1 @ events2"
      by simp_all
    from Cons.prems(2) r consider "list_ex snd events1" | "list_ex snd events2"
      by auto
    then show ?thesis
    proof cases
      case 1
      with w1 keep2 r show ?thesis by simp
    next
      case 2
      with w2 r show ?thesis by simp
    qed
  qed
qed

lemma observe_waiting:
  "waiting_fku sink \<Longrightarrow> observe sink ob = (sink, [])"
  by (cases ob) (simp_all add: buffer_probe_waiting gst_hls_sink_chain_list_def)

lemma observe_delivered:
  assumes "observe sink ob = (sink', events)" and "list_ex snd events"
  shows "waiting_fku sink'"
proof (cases ob)
  case (BUFFER buffer ok)
  with assms show ?thesis by (auto dest: buffer_probe_delivered)
next
  case (BUFFER_LIST list)
  with assms show ?thesis
    by (auto simp: gst_hls_sink_chain_list_def dest: chain_list_loop_delivered split: if_splits)
qed

lemma observations_waiting:
  "waiting_fku sink \<Longrightarrow> observations sink obs = (sink, [])"
  by (induction obs) (simp_all add: observe_waiting)

lemma check_schedule_one_delivered:
  assumes "gst_hls_sink_check_schedule_next_key_unit ok sink buffer = (sink', events)"
  shows "length (filter snd events) \<le> 1"
  using assms
  by (auto simp: gst_hls_sink_check_schedule_next_key_unit_def schedule_next_key_unit_def
      Let_def split: if_splits)

lemma buffer_probe_one_delivered:
  assumes "gst_hls_sink_ghost_buffer_probe ok sink buffer = (sink', events)"
  shows "length (filter snd events) \<le> 1"
  using assms check_schedule_one_delivered [of ok sink buffer sink' events]
  by (auto simp: gst_hls_sink_ghost_buffer_probe_def split: if_splits)

lemma filter_snd_none:
  "\<not> list_ex snd (events :: pushed_event list) \<Longrightarrow> filter snd events = []"
  by (induction events) auto

lemma chain_list_loop_one_delivered:
  "chain_list_loop sink list = (sink', events) \<Longrightarrow> length (filter snd events) \<le> 1"
proof (induction list arbitrary: sink sink' events)
  case Nil
  then show ?case by simp
next
  case (Cons b list)
  obtain buffer ok1 ok2 flow_ok where b: "b = (buffer, ok1, ok2, flow_ok)"
    by (cases b)
  obtain sink1 events1 where c: "(if \<not> waiting_fku sink
            then gst_hls_sink_check_schedule_next_key_unit ok1 sink buffer
            else (sink, [])) = (sink1, events1)"
    by (cases "if \<not> waiting_fku sink
            then gst_hls_sink_check_schedule_next_key_unit ok1 sink buffer
            else (sink, [])")
  obtain sink2 events2 where p: "gst_hls_sink_ghost_buffer_probe ok2 sink1 buffer = (sink2, events2)"
    by (cases "gst_hls_sink_ghost_buffer_probe ok2 sink1 buffer")
  obtain sink3 events3 where l: "chain_list_loop sink2 list = (sink3, events3)"
    by (cases "chain_list_loop sink2 list")
  have n1: "length (filter snd events1) \<le> 1"
    using c check_schedule_one_delivered [of ok1 sink buffer sink1 events1]
    by (auto split: if_splits)
  have n2: "length (filter snd events2) \<le> 1"
    using p by (rule buffer_probe_one_delivered)
  have n3: "length (filter snd events3) \<le> 1"
    using Cons.IH [OF l] .
  have w1: "waiting_fku sink1" if "list_ex snd events1"
    using c that by (auto split: if_splits dest: check_schedule_delivered)
  have w2: "waiting_fku sink2" if "list_ex snd events2"
    using p that by (rule buffer_probe_delivered)
  have keep2: "sink2 = sink1 \<and> events2 = []" if "waiting_fku sink1"
    using p that by (simp add: buffer_probe_waiting)
  have keep3: "sink3 = sink2 \<and> events3 = []" if "waiting_fku sink2"
    using l that by (simp add: chain_list_loop_waiting)
  have events: "events = events1 @ events2 @ (if flow_ok then events3 else [])"
    using Cons.prems b c p l by (simp split: if_splits)
  show ?case
  proof (cases "list_ex snd events1")
    case True
    with w1 keep2 keep3 n1 events show ?thesis by simp
  next
    case no1: False
    show ?thesis
    proof (cases "list_ex snd events2")
      case True
      with w2 keep3 n2 no1 events show ?thesis by (simp add: filter_snd_none)
    next
      case False
      with no1 n3 events show ?thesis by (simp add: filter_snd_none)
    qed
  qed
qed

lemma observe_one_delivered:
  assumes "observe sink ob = (sink', events)"
  shows "length (filter snd events) \<le> 1"
proof (cases ob)
  case (BUFFER buffer ok)
  with assms have "gst_hls_sink_ghost_buffer_probe ok sink buffer = (sink', events)"
    by simp
  then show ?thesis by (rule buffer_probe_one_delivered)
next
  case (BUFFER_LIST list)
  show ?thesis
  proof (cases "target_duration sink = 0 \<or> waiting_fku sink")
    case True
    with assms BUFFER_LIST show ?thesis by (auto simp: gst_hls_sink_chain_list_def)
  next
    case False
    with assms BUFFER_LIST have "chain_list_loop sink list = (sink', events)"
      by (simp add: gst_hls_sink_chain_list_def)
    then show ?thesis by (rule chain_list_loop_one_delivered)
  qed
qed

lemma observations_one_delivered:
  "observations sink obs = (sink', events) \<Longrightarrow> length (filter snd events) \<le> 1"
proof (induction obs arbitrary: sink sink' events)
  case Nil
  then show ?case by simp
next
  case (Cons ob obs)
  obtain sink1 events1 where o: "observe sink ob = (sink1, events1)"
    by (cases "observe sink ob")
  obtain sink2 events2 where r: "observations sink1 obs = (sink2, events2)"
    by (cases "observations sink1 obs")
  from Cons.prems o r have events: "events = events1 @ events2" by simp
  show ?case
  proof (cases "list_ex snd events1")
    case True
    with o have "waiting_fku sink1" by (rule observe_delivered)
    with r have "events2 = []" by (simp add: observations_waiting)
    with observe_one_delivered [OF o] events show ?thesis by simp
  next
    case False
    with Cons.IH [OF r] events show ?thesis by (simp add: filter_snd_none)
  qed
qed


lemma filter_snd_some:
  "list_ex snd (events :: pushed_event list) \<Longrightarrow> 1 \<le> length (filter snd events)"
  by (induction events) auto

text \<open>
  Claim C7. When an observation, a buffer or a list of buffers, has pushed a
  force-key-unit event upstream and the push succeeded, it has pushed exactly one such
  event with success, the sink is waiting, and however many observations follow, and
  whatever a push would answer, no further event is pushed and the sink stays as it is.
  (The flag is cleared by the handler of the message that reports the closed segment,
  and by a reset.) By \<open>observations_one_delivered\<close> no run of observations pushes two
  events with success.
\<close>

theorem observations_after_request:
  assumes "observe sink ob = (sink', events)"
    and "list_ex snd events"
  shows "length (filter snd events) = 1 \<and> waiting_fku sink' \<and>
         observations sink' obs = (sink', [])"
proof -
  from assms have w: "waiting_fku sink'" by (rule observe_delivered)
  from observe_one_delivered [OF assms(1)] filter_snd_some [OF assms(2)]
  have "length (filter snd events) = 1" by simp
  with w show ?thesis by (simp add: observations_waiting)
qed

theorem observations_after_request_witness:
  "observe
     \<lparr>playlist_location = ''playlist.m3u8'', playlist_root = None, target_duration = 15,
       sink_encryption_method = 0, is_reset_index_on_stop = True, index = 0,
       playlist = Some (gst_m3u8_playlist_new 3 5), last_running_time = 0,
       waiting_fku = False, segment = (\<lambda>t. t), start_time = None,
       program_date_time_shift = 0, state = 1, key = []\<rparr>
     (BUFFER 1000000000 True)
   = (\<lparr>playlist_location = ''playlist.m3u8'', playlist_root = None, target_duration = 15,
       sink_encryption_method = 0, is_reset_index_on_stop = True, index = 0,
       playlist = Some (gst_m3u8_playlist_new 3 5), last_running_time = 1000000000,
       waiting_fku = True, segment = (\<lambda>t. t), start_time = None,
       program_date_time_shift = 0, state = 1, key = []\<rparr>,
      [(\<lparr>fku_running_time = 16000000000, fku_all_headers = True, fku_count = 1\<rparr>, True)]) \<and>
   observations
     \<lparr>playlist_location = ''playlist.m3u8'', playlist_root = None, target_duration = 15,
       sink_encryption_method = 0, is_reset_index_on_stop = True, index = 0,
       playlist = Some (gst_m3u8_playlist_new 3 5), last_running_time = 1000000000,
       waiting_fku = True, segment = (\<lambda>t. t), start_time = None,
       program_date_time_shift = 0, state = 1, key = []\<rparr>
     [BUFFER 2000000000 True,
      BUFFER_LIST [(3000000000, True, True, True), (4000000000, False, True, True)],
      BUFFER 17000000000 False]
   = (\<lparr>playlist_location = ''playlist.m3u8'', playlist_root = None, target_duration = 15,
       sink_encryption_method = 0, is_reset_index_on_stop = True, index = 0,
       playlist = Some (gst_m3u8_playlist_new 3 5), last_running_time = 1000000000,
       waiting_fku = True, segment = (\<lambda>t. t), start_time = None,
       program_date_time_shift = 0, state = 1, key = []\<rparr>, [])"
proof -
  let ?sink = "\<lparr>playlist_location = ''playlist.m3u8'', playlist_root = None, target_duration = 15,
       sink_encryption_method = 0, is_reset_index_on_stop = True, index = 0,
       playlist = Some (gst_m3u8_playlist_new 3 5), last_running_time = 0,
       waiting_fku = False, segment = (\<lambda>t. t), start_time = None,
       program_date_time_shift = 0, state = 1, key = []\<rparr>"
  let ?sink' = "\<lparr>playlist_location = ''playlist.m3u8'', playlist_root = None, target_duration = 15,
       sink_encryption_method = 0, is_reset_index_on_stop = True, index = 0,
       playlist = Some (gst_m3u8_playlist_new 3 5), last_running_time = 1000000000,
       waiting_fku = True, segment = (\<lambda>t. t), start_time = None,
       program_date_time_shift = 0, state = 1, key = []\<rparr>"
  let ?obs = "[BUFFER 2000000000 True,
      BUFFER_LIST [(3000000000, True, True, True), (4000000000, False, True, True)],
      BUFFER 17000000000 False]"
  have first: "observe ?sink (BUFFER 1000000000 True)
      = (?sink', [(\<lparr>fku_running_time = 16000000000, fku_all_headers = True, fku_count = 1\<rparr>, True)])"
    by (simp add: gst_hls_sink_ghost_buffer_probe_def
        gst_hls_sink_check_schedule_next_key_unit_def schedule_next_key_unit_def
        GST_CLOCK_TIME_NONE_def GST_SECOND_def)
  from observations_after_request [OF first, of ?obs]
  have "observations ?sink' ?obs = (?sink', [])"
    by simp
  with first show ?thesis by blast
qed

subsection \<open>Encryption of a segment file\<close>

text \<open>
  Where \<open>gst_hls_sink_encrypt_chunk\<close> leaves before the end or \<open>rename\<close> fails, a
  segment file that is not itself the file \<open>encrypted\<close> of its directory is left as it
  was.
\<close>

lemma file_of_path_segment: "file_of_path ''segment00000.ts'' = ''segment00000.ts''"
  by (simp add: file_of_path_def G_DIR_SEPARATOR_def)

lemma file_of_path_encrypted:
  "file_of_path ''./encrypted'' = ''encrypted''"
  "file_of_path ''encrypted'' = ''encrypted''"
  by (simp_all add: file_of_path_def G_DIR_SEPARATOR_def)

lemma encrypt_chunk_failure_keeps_file:
  assumes "gst_hls_sink_encrypt_chunk backend host cbc env sink fs filename = (fs', outcome)"
    and "outcome \<noteq> ENCRYPT_DONE"
    and "file_of_path (g_build_filename (g_path_get_dirname filename) ''encrypted'')
           \<noteq> file_of_path filename"
  shows "fs' (file_of_path filename) = fs (file_of_path filename)"
  using assms
  by (auto simp: gst_hls_sink_encrypt_chunk_def Let_def split: if_splits option.splits)

lemma dirname_segment: "g_path_get_dirname ''segment00000.ts'' = ''.''"
  by (simp add: g_path_get_dirname_def G_DIR_SEPARATOR_def)

lemma build_filename_encrypted: "g_build_filename ''.'' ''encrypted'' = ''./encrypted''"
  by (simp add: g_build_filename_def G_DIR_SEPARATOR_def strip_trailing_separators_def)

lemma add_padding_16:
  "add_padding (replicate 16 x) = replicate 16 x @ replicate 16 16"
  by (simp add: add_padding_def AES_BLOCK_SIZE_def)

text \<open>
  The condition on the name is needed: a segment that is itself the file \<open>encrypted\<close>
  of its directory is emptied when that file is opened for writing, before anything can
  fail.
\<close>

lemma dirname_encrypted: "g_path_get_dirname ''encrypted'' = ''.''"
  by (simp add: g_path_get_dirname_def G_DIR_SEPARATOR_def)

lemma encrypt_chunk_named_encrypted:
  "snd (gst_hls_sink_encrypt_chunk HAVE_GCRYPT host cbc
          \<lparr>init_encrypting_ok = True, fopen_chunk_ok = True, fopen_encrypted_ok = True,
            stat_ok = True, fread_count = 32, fread_ferror = False, cipher_ok = False,
            fwrite_count = 32, rename_ok = True\<rparr>
          sink [''encrypted'' \<mapsto> replicate 32 0x47] ''encrypted'')
     = CIPHER_FAILED \<and>
   fst (gst_hls_sink_encrypt_chunk HAVE_GCRYPT host cbc
          \<lparr>init_encrypting_ok = True, fopen_chunk_ok = True, fopen_encrypted_ok = True,
            stat_ok = True, fread_count = 32, fread_ferror = False, cipher_ok = False,
            fwrite_count = 32, rename_ok = True\<rparr>
          sink [''encrypted'' \<mapsto> replicate 32 0x47] ''encrypted'')
       ''encrypted''
     = Some []"
  by (simp add: gst_hls_sink_encrypt_chunk_def Let_def dirname_encrypted
      build_filename_encrypted file_of_path_encrypted)

text \<open>
  Claim C9 says that the segment file is unchanged whenever a step of the encryption
  fails, reading the source among them. The test after \<open>fread\<close> is
  \<^verbatim>\<open>size == 0 && ferror (chunk)\<close>: a read that fails after it has delivered some bytes
  passes it. For a segment of 32 bytes of which \<open>fread\<close> delivers 16 and then sets the
  error indicator, with every other call succeeding, the function runs to its end, and
  the segment file then holds the encryption of the first 16 bytes and their padding,
  whatever the cipher and the library: the other 16 bytes are lost.
\<close>

theorem encrypt_chunk_short_read:
  "snd (gst_hls_sink_encrypt_chunk backend host cbc
          \<lparr>init_encrypting_ok = True, fopen_chunk_ok = True, fopen_encrypted_ok = True,
            stat_ok = True, fread_count = 16, fread_ferror = True, cipher_ok = True,
            fwrite_count = 32, rename_ok = True\<rparr>
          sink [''segment00000.ts'' \<mapsto> replicate 32 0x47] ''segment00000.ts'')
     = ENCRYPT_DONE \<and>
   fst (gst_hls_sink_encrypt_chunk backend host cbc
          \<lparr>init_encrypting_ok = True, fopen_chunk_ok = True, fopen_encrypted_ok = True,
            stat_ok = True, fread_count = 16, fread_ferror = True, cipher_ok = True,
            fwrite_count = 32, rename_ok = True\<rparr>
          sink [''segment00000.ts'' \<mapsto> replicate 32 0x47] ''segment00000.ts'')
       ''segment00000.ts''
     = Some (take 32 (cbc (key sink) (init_encrypting_iv host (index sink))
                        (replicate 16 0x47 @ replicate 16 16)))"
  by (simp add: gst_hls_sink_encrypt_chunk_def Let_def dirname_segment
      build_filename_encrypted add_padding_16 file_of_path_segment file_of_path_encrypted)

subsection \<open>The message handler\<close>

lemma schedule_next_key_unit_playlist:
  "schedule_next_key_unit ok sink = (res, sink', events) \<Longrightarrow> playlist sink' = playlist sink"
  by (auto simp: schedule_next_key_unit_def Let_def split: if_splits)

lemma write_playlist_content:
  "gst_hls_sink_write_playlist pf ok sink fs = (fs', content) \<Longrightarrow>
     content = gst_m3u8_playlist_render (g_date_time_format pf) (printf_6f pf) (to_gfloat pf)
                 (playlist sink)"
  by (auto simp: gst_hls_sink_write_playlist_def split: option.splits)

lemma handle_message_kinds:
  "map kind_of (snd (snd (gst_hls_sink_handle_message pf env sink fs
      (GST_MESSAGE_ELEMENT ''GstMultiFileSink'' filename running_time)))) =
    (if sink_encryption_method sink \<noteq> GST_HLS_SINK_ENC_NONE
     then [ADD_ENTRY, ENCRYPT, WRITE, SCHEDULE]
     else [ADD_ENTRY, WRITE, SCHEDULE])"
  by (simp add: gst_hls_sink_handle_message_def Let_def split: prod.splits)

lemma handle_message_calls:
  assumes "gst_hls_sink_handle_message pf env sink fs
      (GST_MESSAGE_ELEMENT ''GstMultiFileSink'' filename running_time) = (sink', fs', calls)"
    and "sink_encryption_method sink \<noteq> GST_HLS_SINK_ENC_NONE"
  shows "\<exists>location added events d pdt.
     calls = [PLAYLIST_ADD_ENTRY location added,
              ENCRYPT_CHUNK filename
                (snd (gst_hls_sink_encrypt_chunk (crypto pf) (host_byte_order pf)
                        (aes_128_cbc pf) (encrypt_answers env)
                        (sink\<lparr>last_running_time := running_time, playlist := playlist sink'\<rparr>)
                        fs filename)),
              WRITE_PLAYLIST (gst_m3u8_playlist_render (g_date_time_format pf) (printf_6f pf)
                                (to_gfloat pf) (playlist sink')),
              SCHEDULE_NEXT_KEY_UNIT events] \<and>
     gst_m3u8_playlist_add_entry (playlist sink) (Some location) None d (index sink) False pdt
       = (added, playlist sink')"
  using assms
  apply (simp add: gst_hls_sink_handle_message_def Let_def split: prod.splits if_splits)
  apply (auto dest!: write_playlist_content schedule_next_key_unit_playlist)
  apply blast
  done

text \<open>
  Claim C1 says that the handler of a closed segment encrypts the file first and appends
  the playlist entry after that. The handler calls \<open>gst_m3u8_playlist_add_entry\<close>
  first and \<open>gst_hls_sink_encrypt_chunk\<close> second: for a sink with encryption enabled
  the calls are made in the order append, encrypt, write, schedule.
\<close>

theorem handle_message_order_counterexample:
  "sink_encryption_method
     \<lparr>playlist_location = ''playlist.m3u8'', playlist_root = None, target_duration = 15,
       sink_encryption_method = 1, is_reset_index_on_stop = True, index = 0,
       playlist = Some (gst_m3u8_playlist_new 3 5), last_running_time = 0,
       waiting_fku = True, segment = (\<lambda>t. t), start_time = None,
       program_date_time_shift = 0, state = 1, key = replicate 16 0\<rparr>
     \<noteq> GST_HLS_SINK_ENC_NONE \<and>
   map kind_of (snd (snd (gst_hls_sink_handle_message
     \<lparr>crypto = HAVE_OPENSSL, host_byte_order = G_LITTLE_ENDIAN,
       aes_128_cbc = (\<lambda>k iv data. data), g_date_time_format = (\<lambda>dt. None),
       printf_6f = (\<lambda>x. []), to_gfloat = (\<lambda>x. x), to_double = (\<lambda>x. x),
       gst_m3u8_playlist_add_discontinuity = (\<lambda>p. p)\<rparr>
     \<lparr>encrypt_answers =
        \<lparr>init_encrypting_ok = True, fopen_chunk_ok = True, fopen_encrypted_ok = True,
          stat_ok = True, fread_count = 16, fread_ferror = False, cipher_ok = True,
          fwrite_count = 32, rename_ok = True\<rparr>,
       write_ok = True, push_ok = True\<rparr>
     \<lparr>playlist_location = ''playlist.m3u8'', playlist_root = None, target_duration = 15,
       sink_encryption_method = 1, is_reset_index_on_stop = True, index = 0,
       playlist = Some (gst_m3u8_playlist_new 3 5), last_running_time = 0,
       waiting_fku = True, segment = (\<lambda>t. t), start_time = None,
       program_date_time_shift = 0, state = 1, key = replicate 16 0\<rparr>
     [''segment00000.ts'' \<mapsto> replicate 16 0x47]
     (GST_MESSAGE_ELEMENT ''GstMultiFileSink'' ''segment00000.ts'' 15000000000))))
   = [ADD_ENTRY, ENCRYPT, WRITE, SCHEDULE] \<and>
   [ADD_ENTRY, ENCRYPT, WRITE, SCHEDULE] \<noteq> [ENCRYPT, ADD_ENTRY, WRITE, SCHEDULE]"
  by (simp add: handle_message_kinds GST_HLS_SINK_ENC_NONE_def)

text \<open>
  Claim C1, amended. For every message of a closed segment and every sink with
  encryption enabled, the handler makes four calls in this order: it appends the entry
  to the playlist held in memory, encrypts the file, renders and writes the playlist,
  and schedules the next key unit. The encryption runs on the file system as the
  handler found it, and so has succeeded or failed before the playlist is written; the
  playlist rendered and written is the one the append returned.
\<close>

theorem handle_message_order:
  assumes "gst_hls_sink_handle_message pf env sink fs
      (GST_MESSAGE_ELEMENT ''GstMultiFileSink'' filename running_time) = (sink', fs', calls)"
    and "sink_encryption_method sink \<noteq> GST_HLS_SINK_ENC_NONE"
  shows "map kind_of calls = [ADD_ENTRY, ENCRYPT, WRITE, SCHEDULE] \<and>
    (\<exists>location added events d pdt.
     calls = [PLAYLIST_ADD_ENTRY location added,
              ENCRYPT_CHUNK filename
                (snd (gst_hls_sink_encrypt_chunk (crypto pf) (host_byte_order pf)
                        (aes_128_cbc pf) (encrypt_answers env)
                        (sink\<lparr>last_running_time := running_time, playlist := playlist sink'\<rparr>)
                        fs filename)),
              WRITE_PLAYLIST (gst_m3u8_playlist_render (g_date_time_format pf) (printf_6f pf)
                                (to_gfloat pf) (playlist sink')),
              SCHEDULE_NEXT_KEY_UNIT events] \<and>
     gst_m3u8_playlist_add_entry (playlist sink) (Some location) None d (index sink) False pdt
       = (added, playlist sink'))"
proof -
  from handle_message_calls [OF assms] obtain location added events d pdt where
    calls: "calls = [PLAYLIST_ADD_ENTRY location added,
              ENCRYPT_CHUNK filename
                (snd (gst_hls_sink_encrypt_chunk (crypto pf) (host_byte_order pf)
                        (aes_128_cbc pf) (encrypt_answers env)
                        (sink\<lparr>last_running_time := running_time, playlist := playlist sink'\<rparr>)
                        fs filename)),
              WRITE_PLAYLIST (gst_m3u8_playlist_render (g_date_time_format pf) (printf_6f pf)
                                (to_gfloat pf) (playlist sink')),
              SCHEDULE_NEXT_KEY_UNIT events]"
    and add: "gst_m3u8_playlist_add_entry (playlist sink) (Some location) None d (index sink)
                False pdt = (added, playlist sink')"
    by blast
  have "map kind_of calls = [ADD_ENTRY, ENCRYPT, WRITE, SCHEDULE]"
    by (simp add: calls)
  with calls add show ?thesis by blast
qed

theorem handle_message_order_witness:
  "sink_encryption_method
     \<lparr>playlist_location = ''/var/www/hls/playlist.m3u8'', playlist_root = Some ''/hls'',
       target_duration = 15, sink_encryption_method = 1, is_reset_index_on_stop = False,
       index = 5, playlist = Some (gst_m3u8_playlist_new 3 5), last_running_time = 0,
       waiting_fku = True, segment = (\<lambda>t. t), start_time = Some 0,
       program_date_time_shift = 0, state = 1, key = replicate 16 1\<rparr>
     \<noteq> GST_HLS_SINK_ENC_NONE \<and>
   map kind_of (snd (snd (gst_hls_sink_handle_message
     \<lparr>crypto = HAVE_GCRYPT, host_byte_order = G_BIG_ENDIAN,
       aes_128_cbc = (\<lambda>k iv data. map (\<lambda>b. b XOR 0xAA) data),
       g_date_time_format = (\<lambda>dt. Some ''1970-01-01T00:00:00''),
       printf_6f = printf_6f_decimal, to_gfloat = (\<lambda>x. x), to_double = (\<lambda>x. x),
       gst_m3u8_playlist_add_discontinuity = (\<lambda>p. p)\<rparr>
     \<lparr>encrypt_answers =
        \<lparr>init_encrypting_ok = True, fopen_chunk_ok = True, fopen_encrypted_ok = True,
          stat_ok = True, fread_count = 20, fread_ferror = False, cipher_ok = False,
          fwrite_count = 32, rename_ok = True\<rparr>,
       write_ok = True, push_ok = False\<rparr>
     \<lparr>playlist_location = ''/var/www/hls/playlist.m3u8'', playlist_root = Some ''/hls'',
       target_duration = 15, sink_encryption_method = 1, is_reset_index_on_stop = False,
       index = 5, playlist = Some (gst_m3u8_playlist_new 3 5), last_running_time = 0,
       waiting_fku = True, segment = (\<lambda>t. t), start_time = Some 0,
       program_date_time_shift = 0, state = 1, key = replicate 16 1\<rparr>
     [''/var/www/hls/segment00005.ts'' \<mapsto> replicate 20 0x47]
     (GST_MESSAGE_ELEMENT ''GstMultiFileSink'' ''/var/www/hls/segment00005.ts''
        15000000000))))
   = [ADD_ENTRY, ENCRYPT, WRITE, SCHEDULE]"
proof -
  let ?pf = "\<lparr>crypto = HAVE_GCRYPT, host_byte_order = G_BIG_ENDIAN,
       aes_128_cbc = (\<lambda>k iv data. map (\<lambda>b. b XOR 0xAA) data),
       g_date_time_format = (\<lambda>dt. Some ''1970-01-01T00:00:00''),
       printf_6f = printf_6f_decimal, to_gfloat = (\<lambda>x. x), to_double = (\<lambda>x. x),
       gst_m3u8_playlist_add_discontinuity = (\<lambda>p. p)\<rparr>"
  let ?env = "\<lparr>encrypt_answers =
        \<lparr>init_encrypting_ok = True, fopen_chunk_ok = True, fopen_encrypted_ok = True,
          stat_ok = True, fread_count = 20, fread_ferror = False, cipher_ok = False,
          fwrite_count = 32, rename_ok = True\<rparr>,
       write_ok = True, push_ok = False\<rparr>"
  let ?sink = "\<lparr>playlist_location = ''/var/www/hls/playlist.m3u8'', playlist_root = Some ''/hls'',
       target_duration = 15, sink_encryption_method = 1, is_reset_index_on_stop = False,
       index = 5, playlist = Some (gst_m3u8_playlist_new 3 5), last_running_time = 0,
       waiting_fku = True, segment = (\<lambda>t. t), start_time = Some 0,
       program_date_time_shift = 0, state = 1, key = replicate 16 1\<rparr>"
  let ?fs = "[''/var/www/hls/segment00005.ts'' \<mapsto> replicate 20 0x47] :: filesystem"
  let ?r = "gst_hls_sink_handle_message ?pf ?env ?sink ?fs
     (GST_MESSAGE_ELEMENT ''GstMultiFileSink'' ''/var/www/hls/segment00005.ts'' 15000000000)"
  have enc: "sink_encryption_method ?sink \<noteq> GST_HLS_SINK_ENC_NONE"
    by (simp add: GST_HLS_SINK_ENC_NONE_def)
  have res: "?r = (fst ?r, fst (snd ?r), snd (snd ?r))"
    by simp
  from handle_message_order [OF res enc]
  have "map kind_of (snd (snd ?r)) = [ADD_ENTRY, ENCRYPT, WRITE, SCHEDULE]"
    by (rule conjunct1)
  with enc show ?thesis by (rule conjI)
qed

end
